theory Spec2Isabelle
  imports Main
begin

section \<open>Logging, errors and HTTP values\<close>

text \<open>
  The gateway is a Go program.  Its functions are embedded as HOL functions over explicit
  state: what a function writes to the log, to a response writer or to the gateway's
  fields is returned as part of its result.  Strings are byte strings.  A value of Go's
  \<^verbatim>\<open>int\<close> or \<^verbatim>\<open>int64\<close> is an \<^typ>\<open>int\<close>; \<^verbatim>\<open>int\<close> is taken to be 64 bits wide, and
  where the sources compute with such values the result is wrapped by \<open>int64\<close>, as
  two's-complement arithmetic does.  A \<^verbatim>\<open>time.Duration\<close> is a number of nanoseconds.
\<close>

definition int64 :: "int \<Rightarrow> int" where
  "int64 x = (x + 9223372036854775808) mod 18446744073709551616 - 9223372036854775808"

definition Second :: int where
  "Second = 1000000000"

datatype level = Debug | Info | Warning | Error | Fatal

text \<open>
  Error values.  \<^verbatim>\<open>errors.New(msg)\<close> is \<open>ErrNew msg\<close>; the two package-level errors of the
  sources have constructors of their own; \<open>ErrSyncFailed resource err\<close> is
  \<^verbatim>\<open>fmt.Errorf("syncing %s failed %w", resource, err)\<close>, where \<open>err\<close> may be \<^verbatim>\<open>nil\<close>;
  \<open>ErrPluginStatus code\<close> is
  \<^verbatim>\<open>fmt.Errorf("plugin function sent error response code: %d", code)\<close>; \<open>ErrExternal\<close> is
  an error handed back by a library or by a collaborator outside the sources.
\<close>

datatype error =
    ErrSyncResourceNotKnown
  | ErrPoliciesFetchFailed
  | ErrNew string
  | ErrSyncFailed string "error option"
  | ErrPluginStatus int
  | ErrExternal string

text \<open>
  A log entry is the level, the message (or format string) and the values logged with
  it, in the order the call gives them (fields first).
\<close>

datatype arg = AStr string | AInt int | AErr error

type_synonym log_entry = "level \<times> string \<times> arg list"

text \<open>
  A request, as far as the sources read it.  Header names are kept in their canonical
  form, so \<^verbatim>\<open>Header.Get\<close> is a lookup that yields the first value or the empty string.
  \<open>Path\<close> is the decoded path; \<open>RawPath\<close> is the escaped path as it was sent, which
  \<^verbatim>\<open>net/url\<close> keeps only when it is not the default encoding of \<open>Path\<close> and leaves
  empty otherwise.
\<close>

record url =
  Path :: string
  RawPath :: string
  RawQuery :: string

record http_request =
  Method :: string
  URL :: url
  Header :: "string \<rightharpoonup> string list"
  Body :: string


definition Header_Set :: "(string \<rightharpoonup> string list) \<Rightarrow> string \<Rightarrow> string \<Rightarrow> (string \<rightharpoonup> string list)" where
  "Header_Set h k v = h(k \<mapsto> [v])"

text \<open>
  \<^verbatim>\<open>http.ResponseWriter\<close> is an interface: a writer is the history of the calls made on
  it, oldest first.  \<open>status_sent\<close> reads the history as \<^verbatim>\<open>net/http\<close> does: the first
  \<^verbatim>\<open>WriteHeader\<close> fixes the status line, a \<^verbatim>\<open>Write\<close> before any \<^verbatim>\<open>WriteHeader\<close> sends 200,
  and every later \<^verbatim>\<open>WriteHeader\<close> is superfluous.
\<close>

datatype rw_call = SetHeader string string | WriteHeader int | Write string

type_synonym response_writer = "rw_call list"

fun status_sent :: "response_writer \<Rightarrow> int option" where
  "status_sent [] = None"
| "status_sent (WriteHeader code # _) = Some code"
| "status_sent (Write _ # _) = Some 200"
| "status_sent (SetHeader _ _ # cs) = status_sent cs"

text \<open>
  A handler runs on a connection: the response writer together with the log the gateway
  writes while it serves the request.
\<close>

record conn =
  rw :: response_writer
  clog :: "log_entry list"

type_synonym handler = "conn \<Rightarrow> http_request \<Rightarrow> conn"

definition rw_do :: "rw_call list \<Rightarrow> conn \<Rightarrow> conn" where
  "rw_do cs w = w\<lparr>rw := rw w @ cs\<rparr>"

definition clog_add :: "level \<Rightarrow> string \<Rightarrow> arg list \<Rightarrow> conn \<Rightarrow> conn" where
  "clog_add l msg args w = w\<lparr>clog := clog w @ [(l, msg, args)]\<rparr>"

section \<open>The control API: \<^verbatim>\<open>stripSlashes\<close>, \<^verbatim>\<open>checkIsAPIOwner\<close> and the \<^verbatim>\<open>/tyk/\<close> route\<close>

text \<open>
  \<^verbatim>\<open>strings.TrimRight(s, cutset)\<close> drops every trailing character that occurs in the
  cut set; \<^verbatim>\<open>strings.TrimPrefix\<close> and \<^verbatim>\<open>strings.HasPrefix\<close> are as in Go.
\<close>

definition TrimRight :: "string \<Rightarrow> string \<Rightarrow> string" where
  "TrimRight s cutset = rev (dropWhile (\<lambda>c. c \<in> set cutset) (rev s))"



text \<open>
  \<^verbatim>\<open>stripSlashes\<close> (server.go).  The Go code copies the request struct and assigns the
  trimmed path through the copy's URL pointer; the inner handler is called with the copy.
\<close>

definition stripSlashes :: "handler \<Rightarrow> handler" where
  "stripSlashes next w r =
     (let path = Path (URL r); trim = TrimRight path ''/'' in
      if trim \<noteq> path then next w (r\<lparr>URL := (URL r)\<lparr>Path := trim\<rparr>\<rparr>)
      else next w r)"






definition StatusInternalServerError :: int where
  "StatusInternalServerError = 500"

definition StatusBadRequest :: int where
  "StatusBadRequest = 400"

definition StatusOK :: int where
  "StatusOK = 200"








section \<open>Configuration, API definitions, policies and the gateway's state\<close>

text \<open>
  The fields of \<^verbatim>\<open>config.Config\<close> that the modelled functions read.  The configuration
  types are declared outside the sources; blocks that are only passed on (the OAS
  settings, the forced providers) are carried as opaque strings.
\<close>

record config =
  EnableJSVM :: bool
  UseDBAppConfigs :: bool
  DisableDashboardZeroConf :: bool
  ConnectionString :: string
  UseRPC :: bool
  RPCKey :: string
  AppPath :: string
  ForceAuthProvider :: bool
  ForcedAuthProvider :: string
  ForceSessionProvider :: bool
  ForcedSessionProvider :: string
  OAS :: string
  PolicySource :: string
  PolicyConnectionString :: string
  AllowExplicitPolicyID :: bool
  PolicyPath :: string
  PolicyRecordName :: string
  NodeSecret :: string
  Secret :: string
  RetryAttempts :: int
  Interval :: int

record api_spec =
  Name :: string
  APIID :: string
  AuthProvider :: string
  SessionProvider :: string
  Definition :: string

text \<open>
  Policies (\<^verbatim>\<open>user.Policy\<close>, \<^verbatim>\<open>user.AccessDefinition\<close>) and their dashboard form
  (\<^verbatim>\<open>DBPolicy\<close>, \<^verbatim>\<open>DBAccessDefinition\<close>).  \<open>MID_Hex\<close> is \<^verbatim>\<open>p.MID.Hex()\<close>.  Field
  types that the gateway only copies are strings; \<^verbatim>\<open>Limit\<close> is a pointer in the
  dashboard form and a value, with zero value \<open>zero_APILimit\<close>, in the regular form.
\<close>

type_synonym api_limit = string

definition zero_APILimit :: api_limit where
  "zero_APILimit = []"

record access_definition =
  AD_APIName :: string
  AD_APIID :: string
  AD_Versions :: "string list"
  AD_AllowedURLs :: "string list"
  AD_RestrictedTypes :: "string list"
  AD_AllowedTypes :: "string list"
  AD_DisableIntrospection :: bool
  AD_FieldAccessRights :: "string list"
  AD_Limit :: api_limit
  AD_Endpoints :: "string list"

record db_access_definition =
  DB_APIName :: string
  DB_APIID :: string
  DB_Versions :: "string list"
  DB_AllowedURLs :: "string list"
  DB_RestrictedTypes :: "string list"
  DB_AllowedTypes :: "string list"
  DB_DisableIntrospection :: bool
  DB_FieldAccessRights :: "string list"
  DB_Limit :: "api_limit option"
  DB_Endpoints :: "string list"

record policy =
  MID_Hex :: string
  ID :: string
  OrgID :: string
  AccessRights :: "string \<rightharpoonup> access_definition"
  Settings :: string

record db_policy =
  Policy :: policy
  DB_AccessRights :: "string \<rightharpoonup> db_access_definition"

definition ToRegularAD :: "db_access_definition \<Rightarrow> access_definition" where
  "ToRegularAD d =
     (let ad = \<lparr>AD_APIName = DB_APIName d, AD_APIID = DB_APIID d,
                AD_Versions = DB_Versions d, AD_AllowedURLs = DB_AllowedURLs d,
                AD_RestrictedTypes = DB_RestrictedTypes d,
                AD_AllowedTypes = DB_AllowedTypes d,
                AD_DisableIntrospection = DB_DisableIntrospection d,
                AD_FieldAccessRights = DB_FieldAccessRights d,
                AD_Limit = zero_APILimit, AD_Endpoints = DB_Endpoints d\<rparr>
      in case DB_Limit d of None \<Rightarrow> ad | Some l \<Rightarrow> ad\<lparr>AD_Limit := l\<rparr>)"

definition ToRegularPolicy :: "db_policy \<Rightarrow> policy" where
  "ToRegularPolicy d =
     (Policy d)\<lparr>AccessRights := (\<lambda>k. map_option ToRegularAD (DB_AccessRights d k))\<rparr>"

text \<open>
  A request of the gateway to the dashboard is its method, its endpoint and its headers;
  an answer is its status code and its body.
  Effects other than logging: a wait of a given duration (\<^verbatim>\<open>time.Sleep\<close>, or a timer of
  \<^verbatim>\<open>time.After\<close> that fires), and a heartbeat request or a registration request sent to
  the dashboard, each with the answer that \<^verbatim>\<open>client.Do\<close> gave.
\<close>

record client_request =
  CMethod :: string
  CURL :: string
  CHeader :: "string \<rightharpoonup> string list"

record http_response =
  StatusCode :: int
  RespBody :: string

datatype effect =
    Sleep int
  | HeartBeat client_request "error + http_response"
  | Registration client_request "error + http_response"

text \<open>
  The gateway.  Besides the fields of \<^verbatim>\<open>Gateway\<close> that the modelled functions use, the
  state holds the \<^verbatim>\<open>rpc\<close> package's emergency-mode flag, the log, the effects so far, the
  number \<open>io\<close> of calls made so far to collaborators outside the sources (each call
  reads the collaborator's answer at that index and advances it), and counters of calls
  that have no other trace in the state: of the sync function by
  \<^verbatim>\<open>syncResourcesWithReload\<close>, of the JSVM re-initialisation, of
  \<^verbatim>\<open>tlsConfigCache.Flush\<close>, and of the rebuilds and mux installs of \<^verbatim>\<open>loadGlobalApps\<close>.
  Locks are not modelled: each function runs alone.
\<close>

record gw_state =
  config :: config
  apiSpecs :: "api_spec list"
  apisByID :: "string \<rightharpoonup> api_spec"
  policiesByID :: "string \<rightharpoonup> policy"
  performedSuccessfulReload :: bool
  ServiceNonce :: string
  nodeID :: string
  SessionID :: string
  Hostname :: string
  emergencyMode :: bool
  logs :: "log_entry list"
  effects :: "effect list"
  io :: nat
  syncCalls :: nat
  jsvmInits :: nat
  tlsFlushes :: nat
  appRebuilds :: nat
  muxInstalls :: nat

definition logf :: "level \<Rightarrow> string \<Rightarrow> arg list \<Rightarrow> gw_state \<Rightarrow> gw_state" where
  "logf l msg args s = s\<lparr>logs := logs s @ [(l, msg, args)]\<rparr>"

definition effect_add :: "effect \<Rightarrow> gw_state \<Rightarrow> gw_state" where
  "effect_add e s = s\<lparr>effects := effects s @ [e]\<rparr>"

definition tick :: "gw_state \<Rightarrow> gw_state" where
  "tick s = s\<lparr>io := Suc (io s)\<rparr>"

definition EnableEmergencyMode :: "bool \<Rightarrow> gw_state \<Rightarrow> gw_state" where
  "EnableEmergencyMode b s = s\<lparr>emergencyMode := b\<rparr>"

text \<open>
  How a call ends: it returns (\<open>Done\<close>), the process exits in \<^verbatim>\<open>mainLog.Fatal\<close>
  (\<open>Exit\<close>), or it waits for a signal that only another goroutine can give
  (\<open>Blocked\<close>).
\<close>

datatype 'a outcome = Done 'a gw_state | Exit gw_state | Blocked gw_state

text \<open>A sync function returns Go's pair \<^verbatim>\<open>(int, error)\<close>.\<close>

type_synonym sync_result = "int \<times> error option"

type_synonym syncFunc = "gw_state \<Rightarrow> sync_result outcome"

text \<open>
  The collaborators outside the sources, as functions of the call index: the API
  definition loader, \<^verbatim>\<open>APISpec.Validate\<close>, the HTTP client and the JSON decoders, the RPC
  store, the RPC backup, and the file system.  \<open>FromRPC\<close> is given the emergency-mode
  flag, which the loader reads.  \<open>decode_policy\<close> yields the policy as far as it was
  decoded together with the decoder's error; \<open>decode_node_response\<close> yields the fields
  \<^verbatim>\<open>Message\<close> and \<^verbatim>\<open>Nonce\<close> of a \<^verbatim>\<open>NodeResponseOK\<close>.  \<open>ctx_Err\<close> tells whether the
  context handed to the heartbeat is done when it is looked at, and with which error;
  \<open>StopBeating_called\<close> tells whether another goroutine has called \<^verbatim>\<open>StopBeating\<close> since
  the flag was last read.
\<close>

record world =
  FromDashboardService :: "nat \<Rightarrow> string \<Rightarrow> api_spec list \<times> error option"
  FromRPC :: "nat \<Rightarrow> bool \<Rightarrow> string \<Rightarrow> api_spec list \<times> error option"
  FromDir :: "nat \<Rightarrow> string \<Rightarrow> api_spec list"
  Validate :: "string \<Rightarrow> api_spec \<Rightarrow> error option"
  NewRequest_error :: "string \<Rightarrow> string \<Rightarrow> error option"
  client_Do :: "nat \<Rightarrow> client_request \<Rightarrow> error + http_response"
  decode_policy_list :: "string \<Rightarrow> error + (db_policy list \<times> string)"
  store_Connect :: "nat \<Rightarrow> bool"
  store_GetPolicies :: "nat \<Rightarrow> string \<Rightarrow> string"
  Unmarshal_policies :: "string \<Rightarrow> error + policy list"
  RPCBackup_policies :: "nat \<Rightarrow> (string \<rightharpoonup> policy) \<times> error option"
  saveRPCPoliciesBackup :: "nat \<Rightarrow> string \<Rightarrow> error option"
  Glob_json :: "nat \<Rightarrow> string \<Rightarrow> error + string list"
  os_Open :: "nat \<Rightarrow> string \<Rightarrow> error + string"
  decode_policy :: "string \<Rightarrow> policy \<times> error option"
  decode_policy_map :: "string \<Rightarrow> error + (string \<rightharpoonup> policy)"
  decode_node_response :: "string \<Rightarrow> error + ((string \<rightharpoonup> string) \<times> string)"
  ctx_Err :: "nat \<Rightarrow> error option"
  StopBeating_called :: "nat \<Rightarrow> bool"

section \<open>Loading policies\<close>

text \<open>
  The loaders return Go's pair of a policy map and an error; a \<^verbatim>\<open>nil\<close> map is the empty
  map.  The header names of the \<^verbatim>\<open>header\<close> package are written in canonical form.
\<close>

type_synonym policies_result = "(string \<rightharpoonup> policy) \<times> error option"

definition XTykNodeID :: string where
  "XTykNodeID = ''X-Tyk-Node-Id''"

definition XTykSessionID :: string where
  "XTykSessionID = ''X-Tyk-Session-Id''"

definition XTykNonce :: string where
  "XTykNonce = ''X-Tyk-Nonce''"

definition XTykHostname :: string where
  "XTykHostname = ''X-Tyk-Hostname''"

definition LoadPoliciesFromFile ::
  "world \<Rightarrow> string \<Rightarrow> gw_state \<Rightarrow> policies_result \<times> gw_state" where
  "LoadPoliciesFromFile w filePath s =
     (case os_Open w (io s) filePath of
        Inl err \<Rightarrow>
          ((Map.empty, Some err),
           logf Error ''Couldn't open policy file: '' [AStr ''policy'', AErr err] (tick s))
      | Inr f \<Rightarrow>
          (case decode_policy_map w f of
             Inl err \<Rightarrow>
               ((Map.empty, Some err),
                logf Error ''Couldn't unmarshal policies: '' [AStr ''policy'', AErr err] (tick s))
           | Inr policies \<Rightarrow> ((policies, None), tick s)))"

text \<open>
  The loop of \<^verbatim>\<open>LoadPoliciesFromDir\<close> over the paths found.  A file that does not open
  is skipped; a file that does not decode is logged and the policy decoded so far is
  stored all the same, as in the Go code.
\<close>

fun load_dir_loop ::
  "world \<Rightarrow> string list \<Rightarrow> (string \<rightharpoonup> policy) \<Rightarrow> gw_state \<Rightarrow> (string \<rightharpoonup> policy) \<times> gw_state" where
  "load_dir_loop w [] policies s = (policies, s)"
| "load_dir_loop w (path # paths) policies s =
     (let s1 = logf Info ''Loading policy from dir '' [AStr path] s in
      case os_Open w (io s1) path of
        Inl err \<Rightarrow>
          load_dir_loop w paths policies
            (logf Error ''Couldn't open policy file from dir: '' [AErr err] (tick s1))
      | Inr f \<Rightarrow>
          (case decode_policy w f of
             (pol, derr) \<Rightarrow>
               (let s2 = (case derr of
                            Some err \<Rightarrow>
                              logf Error
                                ''Couldn't unmarshal policy configuration from dir: %v : %v''
                                [AStr path, AErr err] (tick s1)
                          | None \<Rightarrow> tick s1)
                in load_dir_loop w paths (policies(ID pol \<mapsto> pol)) s2)))"

definition LoadPoliciesFromDir ::
  "world \<Rightarrow> string \<Rightarrow> gw_state \<Rightarrow> policies_result \<times> gw_state" where
  "LoadPoliciesFromDir w dir s =
     (case Glob_json w (io s) dir of
        Inl err \<Rightarrow>
          ((Map.empty, Some err),
           logf Error ''error fetch policies path from policies path: '' [AErr err] (tick s))
      | Inr paths \<Rightarrow>
          (case load_dir_loop w paths Map.empty (tick s) of
             (policies, s1) \<Rightarrow> ((policies, None), s1)))"

text \<open>
  The loop of \<^verbatim>\<open>LoadPoliciesFromDashboard\<close> over \<^verbatim>\<open>list.Message\<close>: the id is the
  policy's \<^verbatim>\<open>MID\<close> in hexadecimal, or its explicit \<^verbatim>\<open>ID\<close> when explicit ids are
  allowed and it has one; an entry whose id is already in the map is skipped with a
  warning.
\<close>

fun dashboard_policy_loop ::
  "bool \<Rightarrow> db_policy list \<Rightarrow> (string \<rightharpoonup> policy) \<Rightarrow> gw_state \<Rightarrow> (string \<rightharpoonup> policy) \<times> gw_state" where
  "dashboard_policy_loop allowExplicit [] policies s = (policies, s)"
| "dashboard_policy_loop allowExplicit (p0 # ps) policies s =
     (let id0 = MID_Hex (Policy p0);
          id1 = (if allowExplicit \<and> ID (Policy p0) \<noteq> [] then ID (Policy p0) else id0);
          p = p0\<lparr>Policy := (Policy p0)\<lparr>ID := id1\<rparr>\<rparr>
      in case policies id1 of
           Some _ \<Rightarrow>
             dashboard_policy_loop allowExplicit ps policies
               (logf Warning ''--> Skipping policy, new item has a duplicate ID!''
                  [AStr ''policy'', AStr (ID (Policy p)), AStr (OrgID (Policy p))] s)
         | None \<Rightarrow>
             dashboard_policy_loop allowExplicit ps (policies(id1 \<mapsto> ToRegularPolicy p)) s)"

definition LoadPoliciesFromDashboard ::
  "world \<Rightarrow> string \<Rightarrow> string \<Rightarrow> bool \<Rightarrow> gw_state \<Rightarrow> policies_result \<times> gw_state" where
  "LoadPoliciesFromDashboard w endpoint secret allowExplicit s =
     (case NewRequest_error w ''GET'' endpoint of
        Some err \<Rightarrow>
          ((Map.empty, Some err), logf Error ''Failed to create request: '' [AErr err] s)
      | None \<Rightarrow>
          (let newRequest =
                 \<lparr>CMethod = ''GET'', CURL = endpoint,
                  CHeader =
                    Header_Set
                      (Header_Set
                         (Header_Set (Header_Set Map.empty ''Authorization'' secret)
                            XTykNodeID (nodeID s))
                         XTykSessionID (SessionID s))
                      XTykNonce (ServiceNonce s)\<rparr>;
               s1 = logf Info ''Mutex lock acquired... calling'' [AStr ''policy''] s;
               s2 = logf Info ''Calling dashboard service for policy list'' [AStr ''policy''] s1;
               s3 = tick s2
           in case client_Do w (io s2) newRequest of
                Inl err \<Rightarrow>
                  ((Map.empty, Some err), logf Error ''Policy request failed: '' [AErr err] s3)
              | Inr resp \<Rightarrow>
                  if StatusCode resp \<noteq> StatusOK then
                    ((Map.empty, Some ErrPoliciesFetchFailed),
                     logf Error ''Policy request login failure, Response was: ''
                       [AStr (RespBody resp)] s3)
                  else
                    (case decode_policy_list w (RespBody resp) of
                       Inl err \<Rightarrow>
                         ((Map.empty, Some err),
                          logf Error ''Failed to decode policy body: '' [AErr err] s3)
                     | Inr (message, nonce) \<Rightarrow>
                         (let s4 = logf Debug ''Loading Policies Finished: Nonce Set: ''
                                     [AStr nonce] (s3\<lparr>ServiceNonce := nonce\<rparr>);
                              s5 = logf Info ''Processing policy list'' [AStr ''policy''] s4
                          in case dashboard_policy_loop allowExplicit message Map.empty s5 of
                               (policies, s6) \<Rightarrow> ((policies, None), s6)))))"

text \<open>\<^verbatim>\<open>parsePoliciesFromRPC\<close>: here a later entry replaces an earlier one of the same id.\<close>

fun rpc_policy_loop :: "bool \<Rightarrow> policy list \<Rightarrow> (string \<rightharpoonup> policy) \<Rightarrow> (string \<rightharpoonup> policy)" where
  "rpc_policy_loop allowExplicit [] policies = policies"
| "rpc_policy_loop allowExplicit (p # ps) policies =
     (let id0 = MID_Hex p;
          id1 = (if allowExplicit \<and> ID p \<noteq> [] then ID p else id0)
      in rpc_policy_loop allowExplicit ps (policies(id1 \<mapsto> p\<lparr>ID := id1\<rparr>)))"

definition parsePoliciesFromRPC :: "world \<Rightarrow> string \<Rightarrow> bool \<Rightarrow> policies_result" where
  "parsePoliciesFromRPC w list allowExplicit =
     (case Unmarshal_policies w list of
        Inl err \<Rightarrow> (Map.empty, Some err)
      | Inr dbPolicyList \<Rightarrow> (rpc_policy_loop allowExplicit dbPolicyList Map.empty, None))"

text \<open>
  Modelled from the spec: \<^verbatim>\<open>LoadPoliciesFromRPCBackup\<close> is called by the sources but
  defined outside them.  The spec has emergency mode read the locally cached backup of
  what the remote source delivered; the backup's answer is the world's
  \<open>RPCBackup_policies\<close>.
\<close>

definition LoadPoliciesFromRPCBackup :: "world \<Rightarrow> gw_state \<Rightarrow> policies_result \<times> gw_state" where
  "LoadPoliciesFromRPCBackup w s = (RPCBackup_policies w (io s), tick s)"

definition LoadPoliciesFromRPC ::
  "world \<Rightarrow> string \<Rightarrow> bool \<Rightarrow> gw_state \<Rightarrow> policies_result \<times> gw_state" where
  "LoadPoliciesFromRPC w orgId allowExplicit s =
     (if emergencyMode s then LoadPoliciesFromRPCBackup w s
      else if \<not> store_Connect w (io s) then
        ((Map.empty, Some (ErrNew ''Policies backup: Failed connecting to database'')), tick s)
      else
        (let s1 = tick s;
             rpcPolicies = store_GetPolicies w (io s1) orgId;
             s2 = tick s1
         in if rpcPolicies = [] then
              ((Map.empty,
                Some (ErrNew ''failed to fetch policies from RPC store; connection may be down'')),
               s2)
            else
              (case parsePoliciesFromRPC w rpcPolicies allowExplicit of
                 (_, Some err) \<Rightarrow>
                   ((Map.empty, Some err),
                    logf Error ''Failed decode: '' [AStr ''policy'', AErr err, AStr rpcPolicies] s2)
               | (policies, None) \<Rightarrow>
                   (case saveRPCPoliciesBackup w (io s2) rpcPolicies of
                      Some err \<Rightarrow> ((policies, None), logf Error [] [AErr err] (tick s2))
                    | None \<Rightarrow> ((policies, None), tick s2)))))"

section \<open>Syncing policies and API definitions\<close>

text \<open>
  \<^verbatim>\<open>syncPolicies\<close> (server.go).  The source is chosen by \<^verbatim>\<open>Policies.PolicySource\<close>; the
  registry \<^verbatim>\<open>gw.policiesByID\<close> is assigned only after the error check.  \<open>len\<close> of a map
  is the number of its keys.  The Debug lines that list the ids are written in Go's
  unspecified map order and are left out of the log.
\<close>

definition map_len :: "('k \<rightharpoonup> 'v) \<Rightarrow> int" where
  "map_len m = int (card (dom m))"

definition syncPolicies_finish :: "policies_result \<Rightarrow> gw_state \<Rightarrow> sync_result outcome" where
  "syncPolicies_finish res s =
     (case res of
        (pols, err) \<Rightarrow>
          (let s1 = logf Info ''Policies found (%d total):'' [AInt (map_len pols)] s in
           case err of
             Some e \<Rightarrow> Done (map_len pols, Some e) s1
           | None \<Rightarrow> Done (map_len pols, None) (s1\<lparr>policiesByID := pols\<rparr>)))"

definition syncPolicies :: "world \<Rightarrow> syncFunc" where
  "syncPolicies w s0 =
     (let s = logf Info ''Loading policies'' [] s0; conf = config s in
      if PolicySource conf = ''service'' then
        (if PolicyConnectionString conf = [] then
           Exit (logf Fatal ''No connection string or node ID present. Failing.'' [] s)
         else
           (let connStr = PolicyConnectionString conf @ ''/system/policies'';
                s1 = logf Info ''Using Policies from Dashboard Service'' [] s
            in case LoadPoliciesFromDashboard w connStr (NodeSecret conf)
                      (AllowExplicitPolicyID conf) s1 of
                 (res, s2) \<Rightarrow> syncPolicies_finish res s2))
      else if PolicySource conf = ''rpc'' then
        (let s1 = logf Debug ''Using Policies from RPC'' [] s
         in case LoadPoliciesFromRPC w (RPCKey conf) (AllowExplicitPolicyID conf) s1 of
              (res, s2) \<Rightarrow> syncPolicies_finish res s2)
      else if PolicyPath conf \<noteq> [] then
        (case LoadPoliciesFromDir w (PolicyPath conf) s of
           (res, s2) \<Rightarrow> syncPolicies_finish res s2)
      else if PolicyRecordName conf = [] then
        Done (0, None) (logf Debug ''No policy record name defined, skipping...'' [] s)
      else
        (case LoadPoliciesFromFile w (PolicyRecordName conf) s of
           (res, s2) \<Rightarrow> syncPolicies_finish res s2))"

text \<open>
  \<^verbatim>\<open>buildDashboardConnStr\<close> (server.go).  With no connection string the process exits
  when zeroconf is disabled; otherwise the function sleeps until another goroutine has
  put a connection string into the configuration, which no step of this function does.
\<close>

definition buildDashboardConnStr :: "string \<Rightarrow> gw_state \<Rightarrow> string outcome" where
  "buildDashboardConnStr resource s =
     (let conf = config s in
      if ConnectionString conf = [] \<and> DisableDashboardZeroConf conf then
        Exit (logf Fatal ''Connection string is empty, failing.'' [] s)
      else if \<not> DisableDashboardZeroConf conf \<and> ConnectionString conf = [] then
        Blocked (logf Info ''Waiting for zeroconf signal...'' [] s)
      else Done (ConnectionString conf @ resource) s)"

text \<open>
  \<^verbatim>\<open>syncAPISpecs\<close> (server.go), in three steps: the choice of the loader, the forced
  providers, and the validation loop that builds \<^verbatim>\<open>filter\<close> (here \<open>filtered\<close>) and is followed by the
  assignment of \<^verbatim>\<open>gw.apiSpecs\<close>.  A load that fails returns before anything is
  assigned.
\<close>

definition load_api_specs :: "world \<Rightarrow> gw_state \<Rightarrow> (api_spec list \<times> error option) outcome" where
  "load_api_specs w s =
     (let conf = config s in
      if UseDBAppConfigs conf then
        (case buildDashboardConnStr ''/system/apis'' s of
           Exit s1 \<Rightarrow> Exit s1
         | Blocked s1 \<Rightarrow> Blocked s1
         | Done connStr s1 \<Rightarrow>
             (case FromDashboardService w (io s1) connStr of
                (tmpSpecs, Some err) \<Rightarrow>
                  Done ([], Some err) (logf Error ''failed to load API specs: '' [AErr err] (tick s1))
              | (tmpSpecs, None) \<Rightarrow>
                  Done (tmpSpecs, None)
                    (logf Debug ''Downloading API Configurations from Dashboard Service'' []
                       (tick s1))))
      else if UseRPC conf then
        (let s1 = logf Debug ''Using RPC Configuration'' [] s in
         case FromRPC w (io s1) (emergencyMode s1) (RPCKey conf) of
           (sp, Some err) \<Rightarrow> Done ([], Some err) (tick s1)
         | (sp, None) \<Rightarrow> Done (sp, None) (tick s1))
      else Done (FromDir w (io s) (AppPath conf), None) (tick s))"

definition force_providers :: "config \<Rightarrow> api_spec list \<Rightarrow> api_spec list" where
  "force_providers conf sp =
     (let s1 = (if ForceAuthProvider conf
                then map (\<lambda>v. v\<lparr>AuthProvider := ForcedAuthProvider conf\<rparr>) sp else sp)
      in if ForceSessionProvider conf
         then map (\<lambda>v. v\<lparr>SessionProvider := ForcedSessionProvider conf\<rparr>) s1 else s1)"

fun validate_loop ::
  "world \<Rightarrow> string \<Rightarrow> api_spec list \<Rightarrow> api_spec list \<Rightarrow> gw_state \<Rightarrow> api_spec list \<times> gw_state" where
  "validate_loop w oas [] filtered s = (filtered, s)"
| "validate_loop w oas (v # vs) filtered s =
     (case Validate w oas v of
        Some err \<Rightarrow>
          validate_loop w oas vs filtered
            (logf Error ''Skipping loading spec because it failed validation''
               [AErr err, AStr (Name v)] s)
      | None \<Rightarrow> validate_loop w oas vs (filtered @ [v]) s)"

definition syncAPISpecs :: "world \<Rightarrow> syncFunc" where
  "syncAPISpecs w s =
     (case load_api_specs w s of
        Exit s1 \<Rightarrow> Exit s1
      | Blocked s1 \<Rightarrow> Blocked s1
      | Done (sp, Some err) s1 \<Rightarrow> Done (0, Some err) s1
      | Done (sp, None) s1 \<Rightarrow>
          (let s2 = logf Info ''Detected %v APIs'' [AInt (int (length sp))] s1;
               sp' = force_providers (config s2) sp
           in case validate_loop w (OAS (config s2)) sp' [] s2 of
                (filtered, s3) \<Rightarrow>
                  (let s4 = s3\<lparr>apiSpecs := filtered, tlsFlushes := Suc (tlsFlushes s3)\<rparr>
                   in Done (int (length (apiSpecs s4)), None) s4)))"

section \<open>The retry loop and the reload\<close>

text \<open>
  \<^verbatim>\<open>syncResourcesWithReload\<close> (server.go).  The loop variable \<open>i\<close> runs from 1 to
  \<^verbatim>\<open>RetryAttempts+1\<close>, a sum that wraps when \<^verbatim>\<open>RetryAttempts\<close> is the largest \<^verbatim>\<open>int\<close>;
  \<open>err\<close> is the error of the latest attempt, \<^verbatim>\<open>nil\<close> before the first.  The wait between
  two attempts is \<^verbatim>\<open>time.Duration(Interval) * time.Second\<close>.  \<open>call\<close> is a call of the
  sync function, counted in \<open>syncCalls\<close>.
\<close>

definition call :: "syncFunc \<Rightarrow> syncFunc" where
  "call syncFunc s = syncFunc (s\<lparr>syncCalls := Suc (syncCalls s)\<rparr>)"

function sync_loop ::
  "string \<Rightarrow> config \<Rightarrow> syncFunc \<Rightarrow> int \<Rightarrow> error option \<Rightarrow> gw_state \<Rightarrow> sync_result outcome" where
  "sync_loop resource conf syncFunc i err s =
     (if i \<le> int64 (RetryAttempts conf + 1) then
        (case call syncFunc s of
           Exit s1 \<Rightarrow> Exit s1
         | Blocked s1 \<Rightarrow> Blocked s1
         | Done (count, None) s1 \<Rightarrow> Done (count, None) s1
         | Done (count, Some e) s1 \<Rightarrow>
             (let s2 = logf Error ''Error during syncing %s: %s, attempt count %d''
                         [AStr resource, AErr e, AInt i] s1
              in if i = int64 (RetryAttempts conf + 1) then
                   (if UseRPC conf then
                      (let s3 = logf Warning
                                  ''All %s sync attempts failed, triggering emergency mode''
                                  [AStr resource] s2;
                           s4 = EnableEmergencyMode True s3
                       in case call syncFunc s4 of
                            Exit s5 \<Rightarrow> Exit s5
                          | Blocked s5 \<Rightarrow> Blocked s5
                          | Done (count', None) s5 \<Rightarrow>
                              Done (count', None)
                                (logf Info
                                   ''Successfully loaded %s from backup after enabling emergency mode''
                                   [AStr resource] s5)
                          | Done (count', Some e') s5 \<Rightarrow>
                              Done (0, Some (ErrSyncFailed resource (Some e'))) s5)
                    else Done (0, Some (ErrSyncFailed resource (Some e))) s2)
                 else sync_loop resource conf syncFunc (int64 (i + 1)) (Some e)
                        (effect_add (Sleep (int64 (Interval conf * Second))) s2)))
      else Done (0, Some (ErrSyncFailed resource err)) s)"
  by pat_completeness auto
termination
proof (relation "measure (\<lambda>(resource, conf, syncFunc, i, err, s).
                            nat (int64 (RetryAttempts conf + 1) - i))", goal_cases)
  case 1
  show ?case by simp
next
  case (2 resource conf syncFunc i err s x1 x2 x3 x4 x5)
  hence lt: "i < int64 (RetryAttempts conf + 1)" by simp
  have top: "int64 (RetryAttempts conf + 1) < 9223372036854775808"
    unfolding int64_def by simp
  have up: "i < int64 (i + 1)"
  proof (cases "- 9223372036854775808 \<le> i")
    case True
    with lt top show ?thesis unfolding int64_def [of "i + 1"] by simp
  next
    case False
    thus ?thesis unfolding int64_def [of "i + 1"] by simp
  qed
  from lt up show ?case by simp
qed

declare sync_loop.simps [simp del]

definition syncResourcesWithReload ::
  "string \<Rightarrow> config \<Rightarrow> syncFunc \<Rightarrow> gw_state \<Rightarrow> sync_result outcome" where
  "syncResourcesWithReload resource conf syncFunc s =
     (if resource \<noteq> ''apis'' \<and> resource \<noteq> ''policies'' then
        Done (0, Some ErrSyncResourceNotKnown) s
      else sync_loop resource conf syncFunc 1 None s)"

definition apisByIDLen :: "gw_state \<Rightarrow> int" where
  "apisByIDLen s = map_len (apisByID s)"

text \<open>
  Modelled from the spec: \<^verbatim>\<open>loadGlobalApps\<close> is called by \<^verbatim>\<open>DoReload\<close> but defined
  outside the sources.  The spec has the reload end with a full rebuild of the API
  snapshot and router from the loaded set, followed by an atomic mux install; the
  snapshot's \<^verbatim>\<open>by_id\<close> index is wholly replaced, a later definition winning over an
  earlier one of the same id.
\<close>

fun by_id :: "api_spec list \<Rightarrow> (string \<rightharpoonup> api_spec) \<Rightarrow> (string \<rightharpoonup> api_spec)" where
  "by_id [] m = m"
| "by_id (v # vs) m = by_id vs (m(APIID v \<mapsto> v))"

definition loadGlobalApps :: "gw_state \<Rightarrow> gw_state" where
  "loadGlobalApps s =
     s\<lparr>apisByID := by_id (apiSpecs s) Map.empty,
       appRebuilds := Suc (appRebuilds s),
       muxInstalls := Suc (muxInstalls s)\<rparr>"

text \<open>
  \<^verbatim>\<open>DoReload\<close> (server.go).  The JSVM is re-initialised first when it is enabled; a failed
  sync of either resource ends the reload; a sync that reports no API while the registry
  \<^verbatim>\<open>apisByID\<close> has none ends it too, marked successful; in every other case
  \<^verbatim>\<open>loadGlobalApps\<close> runs.
\<close>

definition reinit_JSVM :: "gw_state \<Rightarrow> gw_state" where
  "reinit_JSVM s =
     (if EnableJSVM (config s) then s\<lparr>jsvmInits := Suc (jsvmInits s)\<rparr> else s)"

definition DoReload :: "world \<Rightarrow> gw_state \<Rightarrow> unit outcome" where
  "DoReload w s0 =
     (let s1 = reinit_JSVM s0 in
      case syncResourcesWithReload ''policies'' (config s1) (syncPolicies w) s1 of
        Exit s2 \<Rightarrow> Exit s2
      | Blocked s2 \<Rightarrow> Blocked s2
      | Done (_, Some err) s2 \<Rightarrow> Done () (logf Error ''Error during syncing policies'' [] s2)
      | Done (_, None) s2 \<Rightarrow>
          (case syncResourcesWithReload ''apis'' (config s2) (syncAPISpecs w) s2 of
             Exit s3 \<Rightarrow> Exit s3
           | Blocked s3 \<Rightarrow> Blocked s3
           | Done (_, Some err) s3 \<Rightarrow> Done () (logf Error ''Error during syncing apis'' [] s3)
           | Done (count, None) s3 \<Rightarrow>
               if count = 0 \<and> apisByIDLen s3 = 0 then
                 Done ()
                   ((logf Warning ''No API Definitions found, not reloading'' [] s3)
                      \<lparr>performedSuccessfulReload := True\<rparr>)
               else
                 Done ()
                   (logf Info ''API reload complete'' []
                      ((loadGlobalApps s3)\<lparr>performedSuccessfulReload := True\<rparr>))))"

section \<open>The Go-plugin response middleware\<close>

text \<open>
  \<^verbatim>\<open>ResponseGoPluginMiddleware\<close> (res_handler_go_plugin.go).  The plugin's handler is code
  outside the gateway.  One run of it is described by what it did before it returned or
  panicked: the calls that reached the client's writer through the wrapping
  \<^verbatim>\<open>customResponseWriter\<close>, the wrapper's fields \<^verbatim>\<open>responseSent\<close> and \<^verbatim>\<open>statusCodeSent\<close> at
  that moment, and the value it panicked with, if it did.  The recovered value is taken
  to be non-nil and is kept in its \<^verbatim>\<open>%v\<close> form.  A \<^verbatim>\<open>nil\<close> handler panics when called.
  The latency that is logged is a time measurement and is left out of the log entry.
\<close>

record plugin_run =
  forwarded :: "rw_call list"
  responseSent :: bool
  statusCodeSent :: int
  panicked :: "string option"

type_synonym plugin_handler = "response_writer \<Rightarrow> http_response \<Rightarrow> http_request \<Rightarrow> plugin_run"

record go_plugin_middleware =
  PluginPath :: string
  SymbolName :: string
  ResHandler :: "plugin_handler option"

text \<open>
  A call either returns its error value or lets a panic escape to its caller.
\<close>

datatype go_return = Returned "error option" | Panicking string

text \<open>
  The deferred function of \<^verbatim>\<open>HandleGoPluginResponse\<close> when \<^verbatim>\<open>recover()\<close> yields a value:
  status 500 is written to \<open>w\<close>, the error is logged, and the function returns its zero
  result, a \<^verbatim>\<open>nil\<close> error.
\<close>

definition recover_plugin_panic :: "string \<Rightarrow> conn \<Rightarrow> go_return \<times> conn" where
  "recover_plugin_panic e w =
     (Returned None,
      clog_add Error ''Recovered from panic while running Go-plugin middleware func''
        [AErr (ErrNew e)]
        (rw_do [WriteHeader StatusInternalServerError] w))"

definition HandleGoPluginResponse ::
  "go_plugin_middleware \<Rightarrow> conn \<Rightarrow> http_response \<Rightarrow> http_request \<Rightarrow> go_return \<times> conn" where
  "HandleGoPluginResponse h w res req =
     (case ResHandler h of
        None \<Rightarrow> recover_plugin_panic ''runtime error: invalid memory address or nil pointer dereference'' w
      | Some handler \<Rightarrow>
          (let run = handler (rw w) res req;
               w1 = rw_do (forwarded run) w
           in case panicked run of
                Some e \<Rightarrow> recover_plugin_panic e w1
              | None \<Rightarrow>
                  (let w2 = clog_add Debug ''Go-plugin response processing took'' [] w1 in
                   if responseSent run \<and> statusCodeSent run \<ge> StatusBadRequest then
                     (Returned (Some (ErrPluginStatus (statusCodeSent run))),
                      clog_add Error
                        ''Returned error code while processing response with Go-plugin middleware func''
                        [AErr (ErrPluginStatus (statusCodeSent run))]
                        (rw_do [WriteHeader (statusCodeSent run)] w2))
                   else (Returned None, w2))))"

section \<open>Registration with the dashboard and the heartbeat\<close>

record dashboard_handler =
  RegistrationEndpoint :: string
  DeRegistrationEndpoint :: string
  HeartBeatEndpoint :: string
  KeyQuotaTriggerEndpoint :: string
  HandlerSecret :: string
  heartBeatStopSentinel :: int





text \<open>
  \<^verbatim>\<open>newRequest\<close> panics when the request cannot be built; otherwise the request carries the
  secret, the host name and the session id.
\<close>

definition newRequest ::
  "world \<Rightarrow> dashboard_handler \<Rightarrow> string \<Rightarrow> string \<Rightarrow> gw_state \<Rightarrow> error + client_request" where
  "newRequest w h method endpoint s =
     (case NewRequest_error w method endpoint of
        Some err \<Rightarrow> Inl err
      | None \<Rightarrow>
          Inr \<lparr>CMethod = method, CURL = endpoint,
               CHeader =
                 Header_Set
                   (Header_Set (Header_Set Map.empty ''Authorization'' (HandlerSecret h))
                      XTykHostname (Hostname s))
                   XTykSessionID (SessionID s)\<rparr>)"

text \<open>
  How a call of \<^verbatim>\<open>Register\<close>, \<^verbatim>\<open>sendHeartBeat\<close> or \<^verbatim>\<open>StartBeating\<close> ends: it returns; it
  panics in \<^verbatim>\<open>newRequest\<close>; the process exits, or the goroutine waits for the zeroconf
  signal, inside \<^verbatim>\<open>DoReload\<close>; or, since \<^verbatim>\<open>Register\<close> retries without bound and the
  heartbeat loop ends only by cancellation or by \<^verbatim>\<open>StopBeating\<close>, the call is still
  registering, or still beating, after the number of registration attempts, or of turns
  of the loop, that the run is followed for.
\<close>

datatype 'a beat =
    BeatReturned 'a gw_state
  | BeatPanic error gw_state
  | BeatExit gw_state
  | BeatBlocked gw_state
  | BeatRegistering gw_state
  | BeatRunning gw_state

text \<open>
  \<^verbatim>\<open>Register\<close> (dashboard_register.go).  One attempt sends the registration request and
  either ends the call or asks for a retry, at one of the three places where the Go code
  logs, waits and calls itself again.  The wait is the \<^verbatim>\<open>select\<close> between the context and
  a timer of five seconds: \<open>wait_or_cancel\<close> yields \<^verbatim>\<open>ctx.Err()\<close> when the context is done
  first.  The node id is set before it is known to have been found.  The client that
  \<^verbatim>\<open>initialiseClient\<close> builds is the world's \<open>client_Do\<close>.
\<close>

datatype attempt = Retry gw_state | Finish "error option beat"









section \<open>Notions used to state the properties, and concrete inputs\<close>

text \<open>
  The id under which \<^verbatim>\<open>LoadPoliciesFromDashboard\<close> files an entry, the policy stored for
  the first entry of a list with a given id, and the warning it logs for a skipped entry.
\<close>

definition dashboard_policy_id :: "bool \<Rightarrow> db_policy \<Rightarrow> string" where
  "dashboard_policy_id allowExplicit p =
     (if allowExplicit \<and> ID (Policy p) \<noteq> [] then ID (Policy p) else MID_Hex (Policy p))"

definition first_with_id :: "bool \<Rightarrow> db_policy list \<Rightarrow> string \<Rightarrow> policy option" where
  "first_with_id allowExplicit ps k =
     map_option (\<lambda>p. ToRegularPolicy (p\<lparr>Policy := (Policy p)\<lparr>ID := k\<rparr>\<rparr>))
       (find (\<lambda>p. dashboard_policy_id allowExplicit p = k) ps)"

definition skip_warning :: "log_entry \<Rightarrow> bool" where
  "skip_warning e =
     (fst e = Warning \<and> fst (snd e) = ''--> Skipping policy, new item has a duplicate ID!'')"

text \<open>
  A gateway with an empty configuration and empty registries, a world in which every
  collaborator is out of reach, and variations of the two on which the model is run.
\<close>

definition base_config :: config where
  "base_config =
     \<lparr>EnableJSVM = False, UseDBAppConfigs = False, DisableDashboardZeroConf = True,
      ConnectionString = [], UseRPC = False, RPCKey = [], AppPath = ''apps'',
      ForceAuthProvider = False, ForcedAuthProvider = [], ForceSessionProvider = False,
      ForcedSessionProvider = [], OAS = [], PolicySource = [], PolicyConnectionString = [],
      AllowExplicitPolicyID = False, PolicyPath = [], PolicyRecordName = [],
      NodeSecret = ''node-secret'', Secret = ''s3cret'', RetryAttempts = 0, Interval = 0\<rparr>"

definition base_state :: gw_state where
  "base_state =
     \<lparr>config = base_config, apiSpecs = [], apisByID = Map.empty, policiesByID = Map.empty,
      performedSuccessfulReload = False, ServiceNonce = [], nodeID = ''solo-1'',
      SessionID = ''session-1'', Hostname = ''gw-host'', emergencyMode = False, logs = [], effects = [], io = 0,
      syncCalls = 0, jsvmInits = 0, tlsFlushes = 0, appRebuilds = 0, muxInstalls = 0\<rparr>"

definition base_world :: world where
  "base_world =
     \<lparr>FromDashboardService = (\<lambda>n c. ([], Some (ErrExternal ''dashboard unreachable''))),
      FromRPC = (\<lambda>n e k. ([], Some (ErrExternal ''rpc unreachable''))),
      FromDir = (\<lambda>n d. []),
      Validate = (\<lambda>oas v. if Name v = [] then Some (ErrExternal ''name is required'') else None),
      NewRequest_error = (\<lambda>m u. None),
      client_Do = (\<lambda>n r. Inl (ErrExternal ''connection refused'')),
      decode_policy_list = (\<lambda>b. Inl (ErrExternal ''unexpected end of JSON input'')),
      store_Connect = (\<lambda>n. False),
      store_GetPolicies = (\<lambda>n k. []),
      Unmarshal_policies = (\<lambda>b. Inl (ErrExternal ''unexpected end of JSON input'')),
      RPCBackup_policies = (\<lambda>n. (Map.empty, Some (ErrExternal ''no backup''))),
      saveRPCPoliciesBackup = (\<lambda>n b. None),
      Glob_json = (\<lambda>n d. Inr []),
      os_Open = (\<lambda>n f. Inl (ErrExternal ''no such file'')),
      decode_policy = (\<lambda>b. (\<lparr>MID_Hex = [], ID = [], OrgID = [], AccessRights = Map.empty,
                                Settings = []\<rparr>, Some (ErrExternal ''unexpected end of JSON input''))),
      decode_policy_map = (\<lambda>b. Inl (ErrExternal ''unexpected end of JSON input'')),
      decode_node_response = (\<lambda>b. Inl (ErrExternal ''unexpected end of JSON input'')),
      ctx_Err = (\<lambda>n. None),
      StopBeating_called = (\<lambda>n. False)\<rparr>"

definition mk_db_policy :: "string \<Rightarrow> string \<Rightarrow> string \<Rightarrow> db_policy" where
  "mk_db_policy mid pid org =
     \<lparr>Policy = \<lparr>MID_Hex = mid, ID = pid, OrgID = org, AccessRights = Map.empty, Settings = []\<rparr>,
      DB_AccessRights = Map.empty\<rparr>"

definition dup_world :: world where
  "dup_world =
     base_world
       \<lparr>client_Do := (\<lambda>n r. Inr \<lparr>StatusCode = 200, RespBody = ''two policies''\<rparr>),
        decode_policy_list :=
          (\<lambda>b. Inr ([mk_db_policy ''5f00'' ''gold'' ''org-first'',
                      mk_db_policy ''5f01'' ''gold'' ''org-last''], ''nonce-1''))\<rparr>"


text \<open>Plugin handlers that panic before and after sending a status, and a request.\<close>

definition late_panic :: plugin_handler where
  "late_panic w res req =
     \<lparr>forwarded = [WriteHeader 200], responseSent = True, statusCodeSent = 200,
      panicked = Some ''boom''\<rparr>"

definition early_panic :: plugin_handler where
  "early_panic w res req =
     \<lparr>forwarded = [], responseSent = False, statusCodeSent = 0, panicked = Some ''boom''\<rparr>"

definition sample_request :: http_request where
  "sample_request =
     \<lparr>Method = ''GET'', URL = \<lparr>Path = ''/api/items'', RawPath = [], RawQuery = ''x=1''\<rparr>,
      Header = Map.empty, Body = []\<rparr>"

text \<open>
  Notions for the reload: the state without its log, call index and nonce; a definition
  that passes validation and the log entry of one that does not; the last steps of the
  retry loop; the registries and the snapshot that a reload may replace; and concrete
  gateways, worlds and states reached by a sync.
\<close>

definition core :: "gw_state \<Rightarrow> gw_state" where
  "core s = s\<lparr>logs := [], io := 0, ServiceNonce := []\<rparr>"

definition passes :: "world \<Rightarrow> config \<Rightarrow> api_spec \<Rightarrow> bool" where
  "passes w conf v = (Validate w (OAS conf) v = None)"

definition skipped_entry :: "world \<Rightarrow> config \<Rightarrow> api_spec \<Rightarrow> log_entry" where
  "skipped_entry w conf v =
     (Error, ''Skipping loading spec because it failed validation'',
      (case Validate w (OAS conf) v of Some err \<Rightarrow> [AErr err] | None \<Rightarrow> []) @ [AStr (Name v)])"

definition emergency_attempt ::
  "string \<Rightarrow> config \<Rightarrow> syncFunc \<Rightarrow> error \<Rightarrow> gw_state \<Rightarrow> sync_result outcome" where
  "emergency_attempt resource conf syncFunc e s2 =
     (if UseRPC conf then
        (case call syncFunc
                (EnableEmergencyMode True
                   (logf Warning ''All %s sync attempts failed, triggering emergency mode''
                      [AStr resource] s2)) of
           Exit s5 \<Rightarrow> Exit s5
         | Blocked s5 \<Rightarrow> Blocked s5
         | Done r s5 \<Rightarrow>
             (case snd r of
                None \<Rightarrow>
                  Done (fst r, None)
                    (logf Info ''Successfully loaded %s from backup after enabling emergency mode''
                       [AStr resource] s5)
              | Some e' \<Rightarrow> Done (0, Some (ErrSyncFailed resource (Some e'))) s5))
      else Done (0, Some (ErrSyncFailed resource (Some e))) s2)"

definition attempt_failed :: "string \<Rightarrow> error \<Rightarrow> int \<Rightarrow> gw_state \<Rightarrow> gw_state" where
  "attempt_failed resource e i s1 =
     logf Error ''Error during syncing %s: %s, attempt count %d''
       [AStr resource, AErr e, AInt i] s1"

definition registries ::
  "gw_state \<Rightarrow> (string \<rightharpoonup> policy) \<times> api_spec list \<times> (string \<rightharpoonup> api_spec) \<times> nat \<times> nat \<times> bool \<times> config" where
  "registries s =
     (policiesByID s, apiSpecs s, apisByID s, appRebuilds s, muxInstalls s,
      performedSuccessfulReload s, config s)"

definition snapshot :: "gw_state \<Rightarrow> (string \<rightharpoonup> api_spec) \<times> nat \<times> nat \<times> config" where
  "snapshot s = (apisByID s, appRebuilds s, muxInstalls s, config s)"

definition spec_orders :: api_spec where
  "spec_orders = \<lparr>Name = ''orders'', APIID = ''a1'', AuthProvider = [], SessionProvider = [],
                   Definition = []\<rparr>"

definition spec_unnamed :: api_spec where
  "spec_unnamed = \<lparr>Name = [], APIID = ''a2'', AuthProvider = [], SessionProvider = [],
                    Definition = []\<rparr>"

definition dashboard_config :: config where
  "dashboard_config = base_config\<lparr>UseDBAppConfigs := True, ConnectionString := ''http://dashboard''\<rparr>"

definition loaded_state :: gw_state where
  "loaded_state = base_state\<lparr>config := dashboard_config, apiSpecs := [spec_orders],
                               apisByID := [''a1'' \<mapsto> spec_orders]\<rparr>"

definition unloaded_state :: gw_state where
  "unloaded_state = base_state\<lparr>config := dashboard_config\<rparr>"

definition empty_dashboard :: world where
  "empty_dashboard = base_world\<lparr>FromDashboardService := (\<lambda>n c. ([], None))\<rparr>"

definition after_policy_skip :: "gw_state \<Rightarrow> gw_state" where
  "after_policy_skip s =
     s\<lparr>logs := logs s @ [(Info, ''Loading policies'', []),
                          (Debug, ''No policy record name defined, skipping...'', [])],
       syncCalls := Suc (syncCalls s)\<rparr>"

definition after_empty_api_sync :: "gw_state \<Rightarrow> gw_state" where
  "after_empty_api_sync s =
     s\<lparr>logs := logs s @ [(Debug, ''Downloading API Configurations from Dashboard Service'', []),
                          (Info, ''Detected %v APIs'', [AInt 0])],
       io := Suc (io s), syncCalls := Suc (syncCalls s), apiSpecs := [],
       tlsFlushes := Suc (tlsFlushes s)\<rparr>"

definition two_specs_dir :: world where
  "two_specs_dir = base_world\<lparr>FromDir := (\<lambda>n d. [spec_orders, spec_unnamed])\<rparr>"

definition gold_policy :: policy where
  "gold_policy = \<lparr>MID_Hex = ''5f00'', ID = ''gold'', OrgID = ''org-1'',
                   AccessRights = Map.empty, Settings = []\<rparr>"

definition service_config :: config where
  "service_config =
     base_config\<lparr>PolicySource := ''service'', PolicyConnectionString := ''http://dashboard'',
                  RetryAttempts := 1, Interval := 5\<rparr>"

definition service_state :: gw_state where
  "service_state = base_state\<lparr>config := service_config, policiesByID := [''gold'' \<mapsto> gold_policy]\<rparr>"

definition rpc_config :: config where
  "rpc_config =
     base_config\<lparr>PolicySource := ''rpc'', UseRPC := True, RPCKey := ''org-1'',
                  RetryAttempts := 2, Interval := 5\<rparr>"

definition rpc_state :: gw_state where
  "rpc_state = base_state\<lparr>config := rpc_config\<rparr>"

definition backup_world :: world where
  "backup_world = base_world\<lparr>RPCBackup_policies := (\<lambda>n. ([''gold'' \<mapsto> gold_policy], None))\<rparr>"

text \<open>
  A dashboard whose first answer is a refused connection and whose later answers carry
  one policy, with one API definition in the application directory.
\<close>

definition silver_policy :: policy where
  "silver_policy = \<lparr>MID_Hex = ''5f01'', ID = ''5f01'', OrgID = ''org-1'',
                     AccessRights = Map.empty, Settings = []\<rparr>"

definition retry_world :: world where
  "retry_world =
     base_world
       \<lparr>FromDir := (\<lambda>n d. [spec_orders]),
        client_Do := (\<lambda>n r. if n = 0 then Inl (ErrExternal ''connection refused'')
                             else Inr \<lparr>StatusCode = 200, RespBody = ''one policy''\<rparr>),
        decode_policy_list := (\<lambda>b. Inr ([mk_db_policy ''5f01'' [] ''org-1''], ''nonce-1''))\<rparr>"











section \<open>Properties of the control API\<close>

lemma TrimRight_idem: "TrimRight (TrimRight s c) c = TrimRight s c"
proof -
  have "dropWhile P (dropWhile P xs) = dropWhile P xs" for P and xs :: string
    by (metis dropWhile_idem)
  thus ?thesis by (simp add: TrimRight_def)
qed

lemma TrimRight_decomp: "\<exists>n. s = TrimRight s ''/'' @ replicate n CHR ''/''"
proof -
  have "\<exists>n. xs = replicate n CHR ''/'' @ dropWhile (\<lambda>c. c \<in> set ''/'') xs" for xs :: string
  proof (induction xs)
    case Nil show ?case by simp
  next
    case (Cons a xs)
    show ?case
    proof (cases "a = CHR ''/''")
      case True
      from Cons obtain n where "xs = replicate n CHR ''/'' @ dropWhile (\<lambda>c. c \<in> set ''/'') xs" by blast
      hence "a # xs = replicate (Suc n) CHR ''/'' @ dropWhile (\<lambda>c. c \<in> set ''/'') (a # xs)"
        using True by simp
      thus ?thesis by blast
    next
      case False
      hence "a # xs = replicate 0 CHR ''/'' @ dropWhile (\<lambda>c. c \<in> set ''/'') (a # xs)" by simp
      thus ?thesis by blast
    qed
  qed
  then obtain n where "rev s = replicate n CHR ''/'' @ dropWhile (\<lambda>c. c \<in> set ''/'') (rev s)" by blast
  hence "rev (rev s) = rev (replicate n CHR ''/'' @ dropWhile (\<lambda>c. c \<in> set ''/'') (rev s))" by simp
  hence "s = TrimRight s ''/'' @ replicate n CHR ''/''" by (simp add: TrimRight_def)
  thus ?thesis by blast
qed

lemma TrimRight_no_trailing: "TrimRight s ''/'' \<noteq> p @ ''/''"
proof
  assume "TrimRight s ''/'' = p @ ''/''"
  hence "dropWhile (\<lambda>c. c \<in> set ''/'') (rev s) = CHR ''/'' # rev p"
    by (metis TrimRight_def rev.simps(2) rev_rev_ident rev_singleton_conv rev_append append_Cons append_Nil)
  moreover have "dropWhile P xs \<noteq> a # ys" if "P a" for P xs and a :: char and ys
    using that by (metis hd_dropWhile list.sel(1) list.distinct(1))
  ultimately show False by simp
qed

lemma stripSlashes_eq:
  "stripSlashes next w r = next w (r\<lparr>URL := (URL r)\<lparr>Path := TrimRight (Path (URL r)) ''/''\<rparr>\<rparr>)"
  by (simp add: stripSlashes_def Let_def)

lemma stripSlashes_idem: "stripSlashes (stripSlashes next) w r = stripSlashes next w r"
  by (simp add: stripSlashes_eq TrimRight_idem)


text \<open>
  C10.  The handler wrapped by \<^verbatim>\<open>stripSlashes\<close> receives the request with every trailing
  \<open>/\<close> removed from the URL path and nothing else changed: the path it receives is the
  original one up to a run of slashes at the end and does not end in a slash.  Stripping
  twice is stripping once.
\<close>

theorem stripSlashes_trims_trailing_slashes:
  "stripSlashes next w r =
     next w (r\<lparr>URL := (URL r)\<lparr>Path := TrimRight (Path (URL r)) ''/''\<rparr>\<rparr>)
   \<and> (\<exists>n. Path (URL r) = TrimRight (Path (URL r)) ''/'' @ replicate n CHR ''/'')
   \<and> (\<forall>p. TrimRight (Path (URL r)) ''/'' \<noteq> p @ ''/'')
   \<and> stripSlashes (stripSlashes next) w r = stripSlashes next w r
   \<and> TrimRight (TrimRight (Path (URL r)) ''/'') ''/'' = TrimRight (Path (URL r)) ''/''"
  using stripSlashes_eq TrimRight_decomp TrimRight_no_trailing stripSlashes_idem TrimRight_idem
  by blast

theorem stripSlashes_trims_trailing_slashes_witness:
  "stripSlashes (\<lambda>w r. clog_add Info (Path (URL r)) [AStr (Method r), AStr (RawQuery (URL r))] w)
     \<lparr>rw = [], clog = []\<rparr>
     \<lparr>Method = ''GET'', URL = \<lparr>Path = ''/reload//'', RawPath = [], RawQuery = ''block=true''\<rparr>,
      Header = Map.empty, Body = []\<rparr>
   = \<lparr>rw = [], clog = [(Info, ''/reload'', [AStr ''GET'', AStr ''block=true''])]\<rparr>"
  using stripSlashes_trims_trailing_slashes
    [of "\<lambda>w r. clog_add Info (Path (URL r)) [AStr (Method r), AStr (RawQuery (URL r))] w"
        "\<lparr>rw = [], clog = []\<rparr>"
        "\<lparr>Method = ''GET'', URL = \<lparr>Path = ''/reload//'', RawPath = [], RawQuery = ''block=true''\<rparr>,
          Header = Map.empty, Body = []\<rparr>"]
  by (simp add: TrimRight_def clog_add_def)

lemma status_sent_append:
  "status_sent (xs @ ys) = (case status_sent xs of None \<Rightarrow> status_sent ys | Some c \<Rightarrow> Some c)"
  by (induction xs rule: status_sent.induct) simp_all






section \<open>Properties of the policy loaders\<close>

lemma loop_None:
  "m (dashboard_policy_id a p) = None \<Longrightarrow>
   dashboard_policy_loop a (p # ps) m s =
   dashboard_policy_loop a ps
     (m(dashboard_policy_id a p \<mapsto>
        ToRegularPolicy (p\<lparr>Policy := (Policy p)\<lparr>ID := dashboard_policy_id a p\<rparr>\<rparr>))) s"
  by (simp add: Let_def dashboard_policy_id_def)

lemma loop_Some:
  "m (dashboard_policy_id a p) = Some v \<Longrightarrow>
   dashboard_policy_loop a (p # ps) m s =
   dashboard_policy_loop a ps m
     (logf Warning ''--> Skipping policy, new item has a duplicate ID!''
        [AStr ''policy'', AStr (dashboard_policy_id a p), AStr (OrgID (Policy p))] s)"
  by (simp add: Let_def dashboard_policy_id_def)

lemma loop_map:
  "fst (dashboard_policy_loop a ps m s) k =
     (case m k of Some v \<Rightarrow> Some v | None \<Rightarrow> first_with_id a ps k)"
proof (induction ps arbitrary: m s)
  case Nil
  show ?case by (simp add: first_with_id_def split: option.split)
next
  case (Cons p ps)
  show ?case
  proof (cases "m (dashboard_policy_id a p)")
    case None
    show ?thesis
      unfolding loop_None [where m=m and a=a and p=p, OF None] Cons.IH
      using None by (simp add: first_with_id_def split: option.split)
  next
    case (Some v)
    show ?thesis
      unfolding loop_Some [where m=m and a=a and p=p, OF Some] Cons.IH
      using Some by (auto simp: first_with_id_def split: option.split)
  qed
qed

lemma loop_logs:
  "\<exists>ws. snd (dashboard_policy_loop a ps m s) = s\<lparr>logs := logs s @ ws\<rparr>
      \<and> list_all skip_warning ws
      \<and> length ws = length ps - card (dashboard_policy_id a ` set ps - dom m)"
proof (induction ps arbitrary: m s)
  case Nil
  show ?case by simp
next
  case (Cons p ps)
  let ?k = "dashboard_policy_id a p"
  have le: "card (dashboard_policy_id a ` set ps - D) \<le> length ps" for D
    by (meson List.finite_set card_image_le card_length card_mono finite_imageI Diff_subset le_trans)
  show ?case
  proof (cases "m ?k")
    case None
    let ?m = "m(?k \<mapsto> ToRegularPolicy (p\<lparr>Policy := (Policy p)\<lparr>ID := ?k\<rparr>\<rparr>))"
    from Cons.IH [of ?m s] obtain ws where
      ws: "snd (dashboard_policy_loop a ps ?m s) = s\<lparr>logs := logs s @ ws\<rparr>"
          "list_all skip_warning ws"
          "length ws = length ps - card (dashboard_policy_id a ` set ps - dom ?m)" by blast
    have step: "dashboard_policy_loop a (p # ps) m s = dashboard_policy_loop a ps ?m s"
      using loop_None [where m=m and a=a and p=p, OF None] .
    have notin: "?k \<notin> dom m" using None by (simp add: domIff)
    have "dashboard_policy_id a ` set (p # ps) - dom m
          = insert ?k (dashboard_policy_id a ` set ps - dom ?m)"
      using notin by auto
    moreover have "?k \<notin> dashboard_policy_id a ` set ps - dom ?m" by simp
    ultimately have "card (dashboard_policy_id a ` set (p # ps) - dom m)
          = Suc (card (dashboard_policy_id a ` set ps - dom ?m))"
      by (simp del: dom_fun_upd image_insert)
    hence "length ws = length (p # ps) - card (dashboard_policy_id a ` set (p # ps) - dom m)"
      using ws(3) by simp
    with ws(1,2) step show ?thesis by metis
  next
    case (Some v)
    let ?s = "logf Warning ''--> Skipping policy, new item has a duplicate ID!''
                  [AStr ''policy'', AStr ?k, AStr (OrgID (Policy p))] s"
    from Cons.IH [of m ?s] obtain ws where
      ws: "snd (dashboard_policy_loop a ps m ?s) = ?s\<lparr>logs := logs ?s @ ws\<rparr>"
          "list_all skip_warning ws"
          "length ws = length ps - card (dashboard_policy_id a ` set ps - dom m)" by blast
    have step: "dashboard_policy_loop a (p # ps) m s = dashboard_policy_loop a ps m ?s"
      using loop_Some [where m=m and a=a and p=p, OF Some] .
    let ?ws = "(Warning, ''--> Skipping policy, new item has a duplicate ID!'',
                  [AStr ''policy'', AStr ?k, AStr (OrgID (Policy p))]) # ws"
    have 1: "snd (dashboard_policy_loop a (p # ps) m s) = s\<lparr>logs := logs s @ ?ws\<rparr>"
      using ws(1) step by (simp add: logf_def)
    have 2: "list_all skip_warning ?ws" using ws(2) by (simp add: skip_warning_def)
    have "?k \<in> dom m" using Some by (simp add: domIff)
    hence "dashboard_policy_id a ` set (p # ps) - dom m = dashboard_policy_id a ` set ps - dom m"
      by auto
    hence 3: "length ?ws = length (p # ps) - card (dashboard_policy_id a ` set (p # ps) - dom m)"
      using ws(3) le [of "dom m"] by simp
    from 1 2 3 show ?thesis by blast
  qed
qed


lemma first_with_id_fun:
  "fst (dashboard_policy_loop a ps Map.empty s) = first_with_id a ps"
  by (rule ext) (simp add: loop_map)

text \<open>
  C2 (as amended).  When the dashboard answers 200 with a list of policies,
  \<^verbatim>\<open>LoadPoliciesFromDashboard\<close> returns, for every id, the policy of the first entry of
  the list with that id: later entries with an id already seen are skipped, and one
  warning is logged for each of them.
\<close>

theorem dashboard_duplicate_ids_first_wins:
  assumes "NewRequest_error w ''GET'' endpoint = None"
      and "\<And>req. client_Do w (io s) req = Inr resp"
      and "StatusCode resp = 200"
      and "decode_policy_list w (RespBody resp) = Inr (message, nonce)"
  shows "\<exists>s' pre ws.
           LoadPoliciesFromDashboard w endpoint secret allowExplicit s =
             ((first_with_id allowExplicit message, None), s')
           \<and> logs s' = logs s @ pre @ ws
           \<and> list_all (\<lambda>e. fst e \<noteq> Warning) pre
           \<and> list_all skip_warning ws
           \<and> length ws =
               length message - card (dashboard_policy_id allowExplicit ` set message)"
proof -
  let ?s3 = "tick (logf Info ''Calling dashboard service for policy list'' [AStr ''policy'']
               (logf Info ''Mutex lock acquired... calling'' [AStr ''policy''] s))"
  let ?s5 = "logf Info ''Processing policy list'' [AStr ''policy'']
               (logf Debug ''Loading Policies Finished: Nonce Set: '' [AStr nonce]
                  (?s3\<lparr>ServiceNonce := nonce\<rparr>))"
  obtain ws where ws:
      "snd (dashboard_policy_loop allowExplicit message Map.empty ?s5) = ?s5\<lparr>logs := logs ?s5 @ ws\<rparr>"
      "list_all skip_warning ws"
      "length ws = length message
         - card (dashboard_policy_id allowExplicit ` set message - dom (Map.empty :: string \<rightharpoonup> policy))"
    using loop_logs [of allowExplicit message Map.empty ?s5] by blast
  have io: "io (logf Info ''Mutex lock acquired... calling'' [AStr ''policy''] s) = io s"
           "io (logf Info ''Calling dashboard service for policy list'' [AStr ''policy'']
               (logf Info ''Mutex lock acquired... calling'' [AStr ''policy''] s)) = io s"
    by (simp_all add: logf_def)
  have run: "LoadPoliciesFromDashboard w endpoint secret allowExplicit s =
        ((fst (dashboard_policy_loop allowExplicit message Map.empty ?s5), None),
         snd (dashboard_policy_loop allowExplicit message Map.empty ?s5))"
    using assms by (simp add: LoadPoliciesFromDashboard_def Let_def io StatusOK_def split: prod.split)
  let ?pre = "[(Info, ''Mutex lock acquired... calling'', [AStr ''policy'']),
               (Info, ''Calling dashboard service for policy list'', [AStr ''policy'']),
               (Debug, ''Loading Policies Finished: Nonce Set: '', [AStr nonce]),
               (Info, ''Processing policy list'', [AStr ''policy''])]"
  have "logs (?s5\<lparr>logs := logs ?s5 @ ws\<rparr>) = logs s @ ?pre @ ws"
    by (simp add: logf_def tick_def)
  moreover have "list_all (\<lambda>e. fst e \<noteq> Warning) ?pre" by simp
  ultimately show ?thesis
    using run ws by (metis first_with_id_fun Diff_empty dom_empty)
qed

text \<open>
  The claim as stated (the last entry wins) fails on a list of two entries with the
  explicit id \<open>gold\<close>: the policy kept is the first one.
\<close>

theorem dashboard_last_wins_counterexample:
  "map_option OrgID
     (fst (fst (LoadPoliciesFromDashboard dup_world ''http://dashboard/system/policies''
                  ''node-secret'' True base_state)) ''gold'')
     = Some ''org-first''
   \<and> dashboard_policy_id True (mk_db_policy ''5f00'' ''gold'' ''org-first'') = ''gold''
   \<and> dashboard_policy_id True (mk_db_policy ''5f01'' ''gold'' ''org-last'') = ''gold''
   \<and> map_option OrgID
     (fst (fst (LoadPoliciesFromDashboard dup_world ''http://dashboard/system/policies''
                  ''node-secret'' True base_state)) ''gold'')
     \<noteq> Some (OrgID (Policy (mk_db_policy ''5f01'' ''gold'' ''org-last'')))"
  by (simp add: LoadPoliciesFromDashboard_def dup_world_def base_world_def base_state_def
      Let_def StatusOK_def logf_def tick_def mk_db_policy_def ToRegularPolicy_def
      dashboard_policy_id_def)

theorem dashboard_duplicate_ids_first_wins_witness:
  "\<exists>s'. LoadPoliciesFromDashboard dup_world ''http://dashboard/system/policies''
            ''node-secret'' True base_state =
          ((first_with_id True [mk_db_policy ''5f00'' ''gold'' ''org-first'',
                                mk_db_policy ''5f01'' ''gold'' ''org-last''], None), s')
        \<and> length (filter skip_warning (logs s')) = 1"
proof -
  have a: "NewRequest_error dup_world ''GET'' ''http://dashboard/system/policies'' = None"
    by (simp add: dup_world_def base_world_def)
  have b: "\<And>req. client_Do dup_world (io base_state) req
              = Inr \<lparr>StatusCode = 200, RespBody = ''two policies''\<rparr>"
    by (simp add: dup_world_def base_world_def)
  have c: "StatusCode \<lparr>StatusCode = 200, RespBody = ''two policies''\<rparr> = 200" by simp
  have d: "decode_policy_list dup_world (RespBody \<lparr>StatusCode = 200, RespBody = ''two policies''\<rparr>)
             = Inr ([mk_db_policy ''5f00'' ''gold'' ''org-first'',
                     mk_db_policy ''5f01'' ''gold'' ''org-last''], ''nonce-1'')"
    by (simp add: dup_world_def base_world_def)
  obtain s' pre ws where r:
    "LoadPoliciesFromDashboard dup_world ''http://dashboard/system/policies''
            ''node-secret'' True base_state =
          ((first_with_id True [mk_db_policy ''5f00'' ''gold'' ''org-first'',
                                mk_db_policy ''5f01'' ''gold'' ''org-last''], None), s')"
    "logs s' = logs base_state @ pre @ ws"
    "list_all (\<lambda>e. fst e \<noteq> Warning) pre"
    "list_all skip_warning ws"
    "length ws = length [mk_db_policy ''5f00'' ''gold'' ''org-first'',
                                mk_db_policy ''5f01'' ''gold'' ''org-last'']
        - card (dashboard_policy_id True ` set [mk_db_policy ''5f00'' ''gold'' ''org-first'',
                                mk_db_policy ''5f01'' ''gold'' ''org-last''])"
    using dashboard_duplicate_ids_first_wins [OF a b c d, of "''node-secret''" True] by blast
  have "filter skip_warning pre = []"
    using r(3) by (induction pre) (auto simp: skip_warning_def)
  moreover have "filter skip_warning ws = ws"
    using r(4) by (induction ws) auto
  moreover have "length ws = 1"
    unfolding r(5) by (simp add: dashboard_policy_id_def mk_db_policy_def)
  ultimately have "length (filter skip_warning (logs s')) = 1"
    by (simp add: r(2) base_state_def)
  with r(1) show ?thesis by blast
qed

section \<open>Properties of the Go-plugin response middleware\<close>

text \<open>
  C8 (as amended).  When the plugin's response handler panics, the middleware recovers:
  it returns a \<^verbatim>\<open>nil\<close> error instead of panicking, and the call it adds to the writer,
  after whatever the handler had written, is \<^verbatim>\<open>WriteHeader(500)\<close>.  The client receives
  500 when no status had been sent on the writer before the panic.
\<close>

theorem plugin_panic_recovered:
  assumes "ResHandler h = Some handler"
      and "panicked (handler (rw w) res req) = Some e"
  shows "HandleGoPluginResponse h w res req =
           (Returned None,
            clog_add Error ''Recovered from panic while running Go-plugin middleware func''
              [AErr (ErrNew e)]
              (rw_do (forwarded (handler (rw w) res req) @ [WriteHeader 500]) w))
         \<and> (status_sent (rw w @ forwarded (handler (rw w) res req)) = None \<longrightarrow>
              status_sent (rw (snd (HandleGoPluginResponse h w res req))) = Some 500)"
proof -
  let ?f = "forwarded (handler (rw w) res req)"
  have run: "HandleGoPluginResponse h w res req =
           (Returned None,
            clog_add Error ''Recovered from panic while running Go-plugin middleware func''
              [AErr (ErrNew e)] (rw_do (?f @ [WriteHeader 500]) w))"
    using assms
    by (simp add: HandleGoPluginResponse_def recover_plugin_panic_def Let_def rw_do_def
        clog_add_def StatusInternalServerError_def)
  have "status_sent ((rw w @ ?f) @ [WriteHeader 500]) = Some 500"
    if "status_sent (rw w @ ?f) = None"
    using that by (simp only: status_sent_append [of "rw w @ ?f"]) simp
  hence "status_sent (rw w @ ?f) = None \<longrightarrow>
         status_sent (rw (snd (HandleGoPluginResponse h w res req))) = Some 500"
    unfolding run by (simp add: rw_do_def clog_add_def)
  with run show ?thesis by simp
qed

theorem plugin_panic_recovered_witness:
  "HandleGoPluginResponse \<lparr>PluginPath = ''plugin.so'', SymbolName = ''MyResponse'',
        ResHandler = Some early_panic\<rparr>
     \<lparr>rw = [], clog = []\<rparr> \<lparr>StatusCode = 200, RespBody = ''ok''\<rparr> sample_request
   = (Returned None,
      \<lparr>rw = [WriteHeader 500],
       clog = [(Error, ''Recovered from panic while running Go-plugin middleware func'',
                [AErr (ErrNew ''boom'')])]\<rparr>)
   \<and> status_sent (rw (snd (HandleGoPluginResponse \<lparr>PluginPath = ''plugin.so'',
        SymbolName = ''MyResponse'', ResHandler = Some early_panic\<rparr>
     \<lparr>rw = [], clog = []\<rparr> \<lparr>StatusCode = 200, RespBody = ''ok''\<rparr> sample_request))) = Some 500"
proof -
  have a: "ResHandler \<lparr>PluginPath = ''plugin.so'', SymbolName = ''MyResponse'',
        ResHandler = Some early_panic\<rparr> = Some early_panic" by simp
  have b: "panicked (early_panic (rw \<lparr>rw = [], clog = []\<rparr>) \<lparr>StatusCode = 200, RespBody = ''ok''\<rparr>
        sample_request) = Some ''boom''"
    by (simp add: early_panic_def)
  show ?thesis
    using plugin_panic_recovered [OF a b]
    by (simp add: early_panic_def rw_do_def clog_add_def)
qed

text \<open>
  The claim as stated (every panicking handler yields 500) fails for a handler that sends
  status 200 and then panics: the status line that went out is 200.
\<close>

theorem plugin_panic_status_counterexample:
  "panicked (late_panic [] \<lparr>StatusCode = 200, RespBody = ''ok''\<rparr> sample_request) = Some ''boom''
   \<and> fst (HandleGoPluginResponse \<lparr>PluginPath = ''plugin.so'', SymbolName = ''MyResponse'',
        ResHandler = Some late_panic\<rparr>
        \<lparr>rw = [], clog = []\<rparr> \<lparr>StatusCode = 200, RespBody = ''ok''\<rparr> sample_request)
     = Returned None
   \<and> rw (snd (HandleGoPluginResponse \<lparr>PluginPath = ''plugin.so'', SymbolName = ''MyResponse'',
        ResHandler = Some late_panic\<rparr>
        \<lparr>rw = [], clog = []\<rparr> \<lparr>StatusCode = 200, RespBody = ''ok''\<rparr> sample_request))
     = [WriteHeader 200, WriteHeader 500]
   \<and> status_sent (rw (snd (HandleGoPluginResponse \<lparr>PluginPath = ''plugin.so'',
        SymbolName = ''MyResponse'', ResHandler = Some late_panic\<rparr>
        \<lparr>rw = [], clog = []\<rparr> \<lparr>StatusCode = 200, RespBody = ''ok''\<rparr> sample_request)))
     = Some 200
   \<and> status_sent (rw (snd (HandleGoPluginResponse \<lparr>PluginPath = ''plugin.so'',
        SymbolName = ''MyResponse'', ResHandler = Some late_panic\<rparr>
        \<lparr>rw = [], clog = []\<rparr> \<lparr>StatusCode = 200, RespBody = ''ok''\<rparr> sample_request)))
     \<noteq> Some 500"
  by (simp add: HandleGoPluginResponse_def recover_plugin_panic_def Let_def rw_do_def
      clog_add_def StatusInternalServerError_def late_panic_def)

section \<open>Properties of the syncs, the retry loop and the reload\<close>

lemma buildDashboardConnStr_Done:
  "ConnectionString (config s) \<noteq> [] \<Longrightarrow>
   buildDashboardConnStr r s = Done (ConnectionString (config s) @ r) s"
  by (simp add: buildDashboardConnStr_def)

lemma buildDashboardConnStr_empty:
  "ConnectionString (config s) = [] \<Longrightarrow>
   buildDashboardConnStr r s = (if DisableDashboardZeroConf (config s)
      then Exit (logf Fatal ''Connection string is empty, failing.'' [] s)
      else Blocked (logf Info ''Waiting for zeroconf signal...'' [] s))"
  by (simp add: buildDashboardConnStr_def)

lemma core_logf [simp]: "core (logf l m a s) = core s"
  by (simp add: core_def logf_def)

lemma core_tick [simp]: "core (tick s) = core s"
  by (simp add: core_def tick_def)

lemma core_nonce [simp]: "core (s\<lparr>ServiceNonce := n\<rparr>) = core s"
  by (simp add: core_def)

lemma core_load_dir_loop: "core (snd (load_dir_loop w paths m s)) = core s"
  by (induction paths arbitrary: m s) (simp_all add: Let_def split: sum.split prod.split option.split)

lemma core_dashboard_policy_loop: "core (snd (dashboard_policy_loop a ps m s)) = core s"
proof (induction ps arbitrary: m s)
  case Nil
  show ?case by simp
next
  case (Cons p ps)
  show ?case
  proof (cases "m (dashboard_policy_id a p)")
    case None
    show ?thesis
      unfolding loop_None [where m=m and a=a and p=p, OF None] by (rule Cons.IH)
  next
    case (Some v)
    show ?thesis
      unfolding loop_Some [where m=m and a=a and p=p, OF Some] by (simp add: Cons.IH)
  qed
qed

lemma core_LoadPoliciesFromFile: "core (snd (LoadPoliciesFromFile w p s)) = core s"
  by (simp add: LoadPoliciesFromFile_def split: sum.split)

lemma core_LoadPoliciesFromDir: "core (snd (LoadPoliciesFromDir w d s)) = core s"
proof (cases "Glob_json w (io s) d")
  case (Inl e) thus ?thesis by (simp add: LoadPoliciesFromDir_def)
next
  case (Inr paths)
  thus ?thesis
    using core_load_dir_loop [of w paths Map.empty "tick s"]
    by (auto simp: LoadPoliciesFromDir_def split: prod.split)
qed

lemma core_LoadPoliciesFromDashboard:
  "core (snd (LoadPoliciesFromDashboard w ep sec a s)) = core s"
proof (cases "NewRequest_error w ''GET'' ep")
  case (Some e)
  thus ?thesis by (simp add: LoadPoliciesFromDashboard_def)
next
  case None
  define s2 where "s2 = logf Info ''Calling dashboard service for policy list'' [AStr ''policy'']
               (logf Info ''Mutex lock acquired... calling'' [AStr ''policy''] s)"
  have c2: "core (tick s2) = core s" by (simp add: s2_def)
  show ?thesis
  proof (cases "client_Do w (io s2)
                 \<lparr>CMethod = ''GET'', CURL = ep,
                  CHeader =
                    Header_Set
                      (Header_Set
                         (Header_Set (Header_Set Map.empty ''Authorization'' sec)
                            XTykNodeID (nodeID s))
                         XTykSessionID (SessionID s))
                      XTykNonce (ServiceNonce s)\<rparr>")
    case (Inl e)
    with None c2 show ?thesis by (simp add: LoadPoliciesFromDashboard_def Let_def s2_def)
  next
    case (Inr resp)
    show ?thesis
    proof (cases "StatusCode resp \<noteq> StatusOK")
      case True
      with None Inr c2 show ?thesis by (simp add: LoadPoliciesFromDashboard_def Let_def s2_def)
    next
      case False
      show ?thesis
      proof (cases "decode_policy_list w (RespBody resp)")
        case (Inl e)
        with None Inr False c2 show ?thesis
          by (simp add: LoadPoliciesFromDashboard_def Let_def s2_def)
      next
        case (Inr mn)
        obtain message nonce where mn: "mn = (message, nonce)" by (cases mn)
        define s5 where "s5 = logf Info ''Processing policy list'' [AStr ''policy'']
               (logf Debug ''Loading Policies Finished: Nonce Set: '' [AStr nonce]
                  ((tick s2)\<lparr>ServiceNonce := nonce\<rparr>))"
        have c5: "core s5 = core s" using c2 by (simp add: s5_def)
        have "snd (LoadPoliciesFromDashboard w ep sec a s)
              = snd (dashboard_policy_loop a message Map.empty s5)"
          using None \<open>client_Do w (io s2) _ = Inr resp\<close> False Inr mn
          by (simp add: LoadPoliciesFromDashboard_def Let_def s2_def s5_def split: prod.split)
        thus ?thesis using core_dashboard_policy_loop [of a message Map.empty s5] c5 by simp
      qed
    qed
  qed
qed

lemma core_LoadPoliciesFromRPC:
  "core (snd (LoadPoliciesFromRPC w org a s)) = core s"
proof (cases "emergencyMode s")
  case True
  thus ?thesis by (simp add: LoadPoliciesFromRPC_def LoadPoliciesFromRPCBackup_def)
next
  case False
  show ?thesis
  proof (cases "store_Connect w (io s)")
    case f: False
    with False show ?thesis by (simp add: LoadPoliciesFromRPC_def)
  next
    case t: True
    show ?thesis
    proof (cases "store_GetPolicies w (io (tick s)) org = []")
      case True
      with False t show ?thesis by (simp add: LoadPoliciesFromRPC_def Let_def)
    next
      case ne: False
      obtain pols eo where pr:
        "parsePoliciesFromRPC w (store_GetPolicies w (io (tick s)) org) a = (pols, eo)"
        by (cases "parsePoliciesFromRPC w (store_GetPolicies w (io (tick s)) org) a")
      show ?thesis
      proof (cases eo)
        case (Some e)
        with False t ne pr show ?thesis by (simp add: LoadPoliciesFromRPC_def Let_def)
      next
        case None
        with False t ne pr show ?thesis
          by (cases "saveRPCPoliciesBackup w (io (tick (tick s))) (store_GetPolicies w (io (tick s)) org)")
             (simp_all add: LoadPoliciesFromRPC_def Let_def)
      qed
    qed
  qed
qed

lemma core_policies: "core (s\<lparr>policiesByID := p\<rparr>) = (core s)\<lparr>policiesByID := p\<rparr>"
  by (simp add: core_def)

lemma finish_frame:
  assumes "core s2 = core s" and "syncPolicies_finish res s2 = Done (c, eo) s'"
  shows "(eo \<noteq> None \<longrightarrow> core s' = core s)
       \<and> core (s'\<lparr>policiesByID := Map.empty\<rparr>) = core (s\<lparr>policiesByID := Map.empty\<rparr>)"
proof -
  obtain pols er where res: "res = (pols, er)" by (cases res)
  show ?thesis
  proof (cases er)
    case None
    with assms(2) res have "s' = (logf Info ''Policies found (%d total):'' [AInt (map_len pols)] s2)
          \<lparr>policiesByID := pols\<rparr>" "eo = None"
      by (auto simp: syncPolicies_finish_def Let_def)
    thus ?thesis using assms(1) by (simp add: core_policies)
  next
    case (Some e)
    with assms(2) res have "s' = logf Info ''Policies found (%d total):'' [AInt (map_len pols)] s2"
      by (auto simp: syncPolicies_finish_def Let_def)
    thus ?thesis using assms(1) by (simp add: core_policies)
  qed
qed

lemma syncPolicies_frame:
  assumes "syncPolicies w s = Done (c, eo) s'"
  shows "(eo \<noteq> None \<longrightarrow> core s' = core s)
       \<and> core (s'\<lparr>policiesByID := Map.empty\<rparr>) = core (s\<lparr>policiesByID := Map.empty\<rparr>)"
proof -
  define s0 where "s0 = logf Info ''Loading policies'' [] s"
  have c0: "core s0 = core s" by (simp add: s0_def)
  have cf: "config s0 = config s" by (simp add: s0_def logf_def)
  consider (service) "PolicySource (config s) = ''service''"
    | (rpc) "PolicySource (config s) \<noteq> ''service''" "PolicySource (config s) = ''rpc''"
    | (dir) "PolicySource (config s) \<noteq> ''service''" "PolicySource (config s) \<noteq> ''rpc''"
            "PolicyPath (config s) \<noteq> []"
    | (none) "PolicySource (config s) \<noteq> ''service''" "PolicySource (config s) \<noteq> ''rpc''"
            "PolicyPath (config s) = []" "PolicyRecordName (config s) = []"
    | (recfile) "PolicySource (config s) \<noteq> ''service''" "PolicySource (config s) \<noteq> ''rpc''"
            "PolicyPath (config s) = []" "PolicyRecordName (config s) \<noteq> []"
    by blast
  thus ?thesis
  proof cases
    case service
    show ?thesis
    proof (cases "PolicyConnectionString (config s) = []")
      case True
      with assms service show ?thesis
        by (simp add: syncPolicies_def Let_def s0_def [symmetric] cf)
    next
      case False
      define s1 where "s1 = logf Info ''Using Policies from Dashboard Service'' [] s0"
      define L where "L = LoadPoliciesFromDashboard w
           (PolicyConnectionString (config s) @ ''/system/policies'') (NodeSecret (config s))
           (AllowExplicitPolicyID (config s)) s1"
      have "core (snd L) = core s"
        unfolding L_def using core_LoadPoliciesFromDashboard c0 by (simp add: s1_def)
      moreover have "syncPolicies_finish (fst L) (snd L) = Done (c, eo) s'"
        using assms service False
        by (simp add: syncPolicies_def Let_def s0_def [symmetric] cf s1_def [symmetric]
            L_def [symmetric] split: prod.splits)
      ultimately show ?thesis by (rule finish_frame)
    qed
  next
    case rpc
    define s1 where "s1 = logf Debug ''Using Policies from RPC'' [] s0"
    define L where "L = LoadPoliciesFromRPC w (RPCKey (config s))
           (AllowExplicitPolicyID (config s)) s1"
    have "core (snd L) = core s"
      unfolding L_def using core_LoadPoliciesFromRPC c0 by (simp add: s1_def)
    moreover have "syncPolicies_finish (fst L) (snd L) = Done (c, eo) s'"
      using assms rpc
      by (simp add: syncPolicies_def Let_def s0_def [symmetric] cf s1_def [symmetric]
          L_def [symmetric] split: prod.splits)
    ultimately show ?thesis by (rule finish_frame)
  next
    case dir
    define L where "L = LoadPoliciesFromDir w (PolicyPath (config s)) s0"
    have "core (snd L) = core s"
      unfolding L_def using core_LoadPoliciesFromDir c0 by simp
    moreover have "syncPolicies_finish (fst L) (snd L) = Done (c, eo) s'"
      using assms dir
      by (simp add: syncPolicies_def Let_def s0_def [symmetric] cf
          L_def [symmetric] split: prod.splits)
    ultimately show ?thesis by (rule finish_frame)
  next
    case none
    with assms have "s' = logf Debug ''No policy record name defined, skipping...'' [] s0" "eo = None"
      by (auto simp: syncPolicies_def Let_def s0_def [symmetric] cf)
    thus ?thesis using c0 by (simp add: core_policies)
  next
    case recfile
    define L where "L = LoadPoliciesFromFile w (PolicyRecordName (config s)) s0"
    have "core (snd L) = core s"
      unfolding L_def using core_LoadPoliciesFromFile c0 by simp
    moreover have "syncPolicies_finish (fst L) (snd L) = Done (c, eo) s'"
      using assms recfile
      by (simp add: syncPolicies_def Let_def s0_def [symmetric] cf
          L_def [symmetric] split: prod.splits)
    ultimately show ?thesis by (rule finish_frame)
  qed
qed

lemma validate_loop_eq:
  "validate_loop w (OAS conf) vs acc s =
     (acc @ filter (passes w conf) vs,
      s\<lparr>logs := logs s @ map (skipped_entry w conf) (filter (\<lambda>v. \<not> passes w conf v) vs)\<rparr>)"
proof (induction vs arbitrary: acc s)
  case Nil
  show ?case by simp
next
  case (Cons v vs)
  show ?case
  proof (cases "Validate w (OAS conf) v")
    case None
    thus ?thesis by (simp add: Cons.IH passes_def)
  next
    case (Some e)
    thus ?thesis by (simp add: Cons.IH passes_def skipped_entry_def logf_def)
  qed
qed

lemma load_api_specs_frame:
  assumes "load_api_specs w s = Done r s1"
  shows "core s1 = core s"
proof (cases "UseDBAppConfigs (config s)")
  case True
  show ?thesis
  proof (cases "ConnectionString (config s) = []")
    case e: True
    with assms True show ?thesis
      by (simp add: load_api_specs_def buildDashboardConnStr_empty Let_def split: if_splits)
  next
    case ne: False
    obtain sp eo where fd: "FromDashboardService w (io s)
        (ConnectionString (config s) @ ''/system/apis'') = (sp, eo)"
      by (cases "FromDashboardService w (io s) (ConnectionString (config s) @ ''/system/apis'')")
    from assms True ne fd show ?thesis
      by (cases eo) (auto simp: load_api_specs_def buildDashboardConnStr_Done Let_def)
  qed
next
  case False
  show ?thesis
  proof (cases "UseRPC (config s)")
    case t: True
    define s1' where "s1' = logf Debug ''Using RPC Configuration'' [] s"
    obtain sp eo where fd: "FromRPC w (io s1') (emergencyMode s1') (RPCKey (config s)) = (sp, eo)"
      by (cases "FromRPC w (io s1') (emergencyMode s1') (RPCKey (config s))")
    from assms False t fd show ?thesis
      by (cases eo) (auto simp: load_api_specs_def Let_def s1'_def [symmetric], auto simp: s1'_def)
  next
    case f: False
    with assms False show ?thesis by (auto simp: load_api_specs_def Let_def)
  qed
qed

lemma load_api_specs_config:
  assumes "load_api_specs w s = Done r s1"
  shows "config s1 = config s"
proof -
  have "config (core s1) = config (core s)" using load_api_specs_frame [OF assms] by simp
  thus ?thesis by (simp add: core_def)
qed

lemma syncAPISpecs_fail:
  assumes "load_api_specs w s = Done (sp, Some e) s1"
  shows "syncAPISpecs w s = Done (0, Some e) s1"
  using assms by (simp add: syncAPISpecs_def)

lemma syncAPISpecs_ok:
  assumes "load_api_specs w s = Done (fetched, None) s1"
  shows "syncAPISpecs w s =
         Done (int (length (filter (passes w (config s)) (force_providers (config s) fetched))), None)
           (s1\<lparr>logs := logs s1 @ (Info, ''Detected %v APIs'', [AInt (int (length fetched))])
                   # map (skipped_entry w (config s))
                       (filter (\<lambda>v. \<not> passes w (config s) v) (force_providers (config s) fetched)),
               apiSpecs := filter (passes w (config s)) (force_providers (config s) fetched),
               tlsFlushes := Suc (tlsFlushes s1)\<rparr>)"
  using assms load_api_specs_config [OF assms]
  by (simp add: syncAPISpecs_def Let_def validate_loop_eq logf_def)

lemma int64_lt: "int64 x < 9223372036854775808"
  unfolding int64_def by simp

lemma int64_ge: "- 9223372036854775808 \<le> int64 x"
  unfolding int64_def by simp

lemma int64_id: "- 9223372036854775808 \<le> x \<Longrightarrow> x < 9223372036854775808 \<Longrightarrow> int64 x = x"
  unfolding int64_def by simp

lemma int64_next: "1 \<le> i \<Longrightarrow> i < int64 y \<Longrightarrow> int64 (i + 1) = i + 1"
  using int64_lt [of y] by (simp add: int64_id)

lemma int64_measure:
  assumes "i < int64 y"
  shows "nat (int64 y - int64 (i + 1)) < nat (int64 y - i)"
proof (cases "- 9223372036854775808 \<le> i")
  case True
  have "i + 1 < 9223372036854775808" using assms int64_lt [of y] by simp
  with True have "int64 (i + 1) = i + 1" by (simp add: int64_id)
  with assms show ?thesis by simp
next
  case False
  with assms show ?thesis using int64_ge [of "i + 1"] by simp
qed

lemma sync_loop_over:
  "\<not> i \<le> int64 (RetryAttempts conf + 1) \<Longrightarrow>
   sync_loop resource conf f i err s = Done (0, Some (ErrSyncFailed resource err)) s"
  by (subst sync_loop.simps) simp

lemma sync_loop_ok:
  "i \<le> int64 (RetryAttempts conf + 1) \<Longrightarrow> call f s = Done (c, None) s1 \<Longrightarrow>
   sync_loop resource conf f i err s = Done (c, None) s1"
  by (subst sync_loop.simps) simp

lemma sync_loop_exit:
  "i \<le> int64 (RetryAttempts conf + 1) \<Longrightarrow> call f s = Exit s1 \<Longrightarrow>
   sync_loop resource conf f i err s = Exit s1"
  by (subst sync_loop.simps) simp

lemma sync_loop_blocked:
  "i \<le> int64 (RetryAttempts conf + 1) \<Longrightarrow> call f s = Blocked s1 \<Longrightarrow>
   sync_loop resource conf f i err s = Blocked s1"
  by (subst sync_loop.simps) simp

lemma sync_loop_last:
  "i = int64 (RetryAttempts conf + 1) \<Longrightarrow> call f s = Done (c, Some e) s1 \<Longrightarrow>
   sync_loop resource conf f i err s =
     emergency_attempt resource conf f e (attempt_failed resource e i s1)"
  by (subst sync_loop.simps)
     (simp add: emergency_attempt_def attempt_failed_def Let_def split: outcome.split prod.split option.split)

lemma sync_loop_retry:
  "i < int64 (RetryAttempts conf + 1) \<Longrightarrow> call f s = Done (c, Some e) s1 \<Longrightarrow>
   sync_loop resource conf f i err s =
     sync_loop resource conf f (int64 (i + 1)) (Some e)
       (effect_add (Sleep (int64 (Interval conf * Second))) (attempt_failed resource e i s1))"
  by (subst sync_loop.simps) (simp add: attempt_failed_def Let_def)

lemma sync_loop_cases:
  obtains (over) "\<not> i \<le> int64 (RetryAttempts conf + 1)"
  | (ok) c s1 where "i \<le> int64 (RetryAttempts conf + 1)" "call f s = Done (c, None) s1"
  | (exit) s1 where "i \<le> int64 (RetryAttempts conf + 1)" "call f s = Exit s1"
  | (blocked) s1 where "i \<le> int64 (RetryAttempts conf + 1)" "call f s = Blocked s1"
  | (last) c e s1 where "i = int64 (RetryAttempts conf + 1)" "call f s = Done (c, Some e) s1"
  | (retry) c e s1 where "i < int64 (RetryAttempts conf + 1)" "call f s = Done (c, Some e) s1"
proof (cases "i \<le> int64 (RetryAttempts conf + 1)")
  case False
  thus ?thesis by (rule over)
next
  case True
  show ?thesis
  proof (cases "call f s")
    case (Exit s1) with True show ?thesis by (rule exit)
  next
    case (Blocked s1) with True show ?thesis by (rule blocked)
  next
    case (Done r s1)
    obtain c eo where r: "r = (c, eo)" by (cases r)
    show ?thesis
    proof (cases eo)
      case None
      with Done r have "call f s = Done (c, None) s1" by simp
      with True show ?thesis by (rule ok)
    next
      case (Some e)
      with Done r have cf: "call f s = Done (c, Some e) s1" by simp
      show ?thesis
      proof (cases "i = int64 (RetryAttempts conf + 1)")
        case True from this cf show ?thesis by (rule last)
      next
        case False
        with True have "i < int64 (RetryAttempts conf + 1)" by simp
        thus ?thesis using cf by (rule retry)
      qed
    qed
  qed
qed

lemma sync_loop_frame:
  assumes stab: "\<And>s n. P (s\<lparr>syncCalls := n\<rparr>) = P s" "\<And>l m a s. P (logf l m a s) = P s"
      "\<And>e s. P (effect_add e s) = P s" "\<And>b s. P (EnableEmergencyMode b s) = P s"
    and f: "\<And>s r s'. f s = Done r s' \<Longrightarrow> P s' = P s"
  shows "sync_loop resource conf f i err s = Done r s' \<Longrightarrow> P s' = P s"
proof (induction "nat (int64 (RetryAttempts conf + 1) - i)" arbitrary: i err s rule: less_induct)
  case less
  have cl: "call f s = Done r1 s1 \<Longrightarrow> P s1 = P s" for r1 s1
    using f [of "s\<lparr>syncCalls := Suc (syncCalls s)\<rparr>" r1 s1] stab(1) by (simp add: call_def)
  show ?case
  proof (cases rule: sync_loop_cases [where i=i and conf=conf and f=f and s=s])
    case over
    with less.prems show ?thesis by (simp add: sync_loop_over)
  next
    case (ok c s1)
    with less.prems cl show ?thesis by (simp add: sync_loop_ok)
  next
    case (exit s1)
    with less.prems show ?thesis by (simp add: sync_loop_exit)
  next
    case (blocked s1)
    with less.prems show ?thesis by (simp add: sync_loop_blocked)
  next
    case (last c e s1)
    have em: "emergency_attempt resource conf f e (attempt_failed resource e i s1) = Done r s'"
      using less.prems last by (simp add: sync_loop_last)
    have p1: "P (attempt_failed resource e i s1) = P s"
      using cl [OF last(2)] stab(2) by (simp add: attempt_failed_def)
    show ?thesis
    proof (cases "UseRPC conf")
      case False
      with em p1 show ?thesis by (auto simp: emergency_attempt_def)
    next
      case True
      define s4 where "s4 = EnableEmergencyMode True
                   (logf Warning ''All %s sync attempts failed, triggering emergency mode''
                      [AStr resource] (attempt_failed resource e i s1))"
      have p4: "P s4 = P s" using p1 stab(2,4) by (simp add: s4_def)
      have cl4: "call f s4 = Done r1 s5 \<Longrightarrow> P s5 = P s" for r1 s5
        using f [of "s4\<lparr>syncCalls := Suc (syncCalls s4)\<rparr>" r1 s5] stab(1) p4
        by (simp add: call_def)
      from em True show ?thesis
        using cl4 stab(2)
        by (auto simp: emergency_attempt_def s4_def [symmetric] split: outcome.splits option.splits)
    qed
  next
    case (retry c e s1)
    define s2 where "s2 = effect_add (Sleep (int64 (Interval conf * Second)))
                            (attempt_failed resource e i s1)"
    have p2: "P s2 = P s"
      using cl [OF retry(2)] stab(2,3) by (simp add: s2_def attempt_failed_def)
    have m: "nat (int64 (RetryAttempts conf + 1) - int64 (i + 1))
               < nat (int64 (RetryAttempts conf + 1) - i)"
      using retry(1) by (rule int64_measure)
    have "sync_loop resource conf f (int64 (i + 1)) (Some e) s2 = Done r s'"
      using less.prems retry by (simp add: sync_loop_retry s2_def)
    from less.hyps [OF m this] p2 show ?thesis by simp
  qed
qed

lemma sync_loop_frame_failed:
  assumes stab: "\<And>s n. P (s\<lparr>syncCalls := n\<rparr>) = P s" "\<And>l m a s. P (logf l m a s) = P s"
      "\<And>e s. P (effect_add e s) = P s" "\<And>b s. P (EnableEmergencyMode b s) = P s"
    and f: "\<And>s c e s'. f s = Done (c, Some e) s' \<Longrightarrow> P s' = P s"
  shows "sync_loop resource conf f i err s = Done (c, Some e) s' \<Longrightarrow> P s' = P s"
proof (induction "nat (int64 (RetryAttempts conf + 1) - i)" arbitrary: i err s rule: less_induct)
  case less
  have cl: "call f s = Done (c1, Some e1) s1 \<Longrightarrow> P s1 = P s" for c1 e1 s1
    using f [of "s\<lparr>syncCalls := Suc (syncCalls s)\<rparr>" c1 e1 s1] stab(1) by (simp add: call_def)
  show ?case
  proof (cases rule: sync_loop_cases [where i=i and conf=conf and f=f and s=s])
    case over
    with less.prems show ?thesis by (simp add: sync_loop_over)
  next
    case (ok c s1)
    with less.prems show ?thesis by (simp add: sync_loop_ok)
  next
    case (exit s1)
    with less.prems show ?thesis by (simp add: sync_loop_exit)
  next
    case (blocked s1)
    with less.prems show ?thesis by (simp add: sync_loop_blocked)
  next
    case (last c1 e1 s1)
    have em: "emergency_attempt resource conf f e1 (attempt_failed resource e1 i s1)
                = Done (c, Some e) s'"
      using less.prems last by (simp add: sync_loop_last)
    have p1: "P (attempt_failed resource e1 i s1) = P s"
      using cl [OF last(2)] stab(2) by (simp add: attempt_failed_def)
    show ?thesis
    proof (cases "UseRPC conf")
      case False
      with em p1 show ?thesis by (auto simp: emergency_attempt_def)
    next
      case True
      define s4 where "s4 = EnableEmergencyMode True
                   (logf Warning ''All %s sync attempts failed, triggering emergency mode''
                      [AStr resource] (attempt_failed resource e1 i s1))"
      have p4: "P s4 = P s" using p1 stab(2,4) by (simp add: s4_def)
      have cl4: "call f s4 = Done (c2, Some e2) s5 \<Longrightarrow> P s5 = P s" for c2 e2 s5
        using f [of "s4\<lparr>syncCalls := Suc (syncCalls s4)\<rparr>" c2 e2 s5] stab(1) p4
        by (simp add: call_def)
      from em True show ?thesis
        using cl4
        by (auto simp: emergency_attempt_def s4_def [symmetric] split: outcome.splits option.splits)
    qed
  next
    case (retry c1 e1 s1)
    define s2 where "s2 = effect_add (Sleep (int64 (Interval conf * Second)))
                            (attempt_failed resource e1 i s1)"
    have p2: "P s2 = P s"
      using cl [OF retry(2)] stab(2,3) by (simp add: s2_def attempt_failed_def)
    have m: "nat (int64 (RetryAttempts conf + 1) - int64 (i + 1))
               < nat (int64 (RetryAttempts conf + 1) - i)"
      using retry(1) by (rule int64_measure)
    have "sync_loop resource conf f (int64 (i + 1)) (Some e1) s2 = Done (c, Some e) s'"
      using less.prems retry by (simp add: sync_loop_retry s2_def)
    from less.hyps [OF m this] p2 show ?thesis by simp
  qed
qed

lemma sync_loop_post:
  assumes f: "\<And>s c s'. f s = Done (c, None) s' \<Longrightarrow> Q c s'"
    and Qlog: "\<And>c l m a s. Q c s \<Longrightarrow> Q c (logf l m a s)"
  shows "sync_loop resource conf f i err s = Done (c, None) s' \<Longrightarrow> Q c s'"
proof (induction "nat (int64 (RetryAttempts conf + 1) - i)" arbitrary: i err s rule: less_induct)
  case less
  show ?case
  proof (cases rule: sync_loop_cases [where i=i and conf=conf and f=f and s=s])
    case over
    with less.prems show ?thesis by (simp add: sync_loop_over)
  next
    case (ok c1 s1)
    with less.prems f [of "s\<lparr>syncCalls := Suc (syncCalls s)\<rparr>" c1 s1] show ?thesis
      by (simp add: sync_loop_ok call_def)
  next
    case (exit s1)
    with less.prems show ?thesis by (simp add: sync_loop_exit)
  next
    case (blocked s1)
    with less.prems show ?thesis by (simp add: sync_loop_blocked)
  next
    case (last c1 e1 s1)
    have em: "emergency_attempt resource conf f e1 (attempt_failed resource e1 i s1)
                = Done (c, None) s'"
      using less.prems last by (simp add: sync_loop_last)
    show ?thesis
    proof (cases "UseRPC conf")
      case False
      with em show ?thesis by (auto simp: emergency_attempt_def)
    next
      case True
      from em True show ?thesis
        using f Qlog
        by (auto simp: emergency_attempt_def call_def split: outcome.splits option.splits)
    qed
  next
    case (retry c1 e1 s1)
    have m: "nat (int64 (RetryAttempts conf + 1) - int64 (i + 1))
               < nat (int64 (RetryAttempts conf + 1) - i)"
      using retry(1) by (rule int64_measure)
    have "sync_loop resource conf f (int64 (i + 1)) (Some e1)
            (effect_add (Sleep (int64 (Interval conf * Second))) (attempt_failed resource e1 i s1))
          = Done (c, None) s'"
      using less.prems retry by (simp add: sync_loop_retry)
    from less.hyps [OF m this] show ?thesis .
  qed
qed

lemma core_apis: "core (s\<lparr>apiSpecs := a, tlsFlushes := t\<rparr>) = (core s)\<lparr>apiSpecs := a, tlsFlushes := t\<rparr>"
  by (simp add: core_def)

lemma syncAPISpecs_frame:
  assumes "syncAPISpecs w s = Done (c, eo) s'"
  shows "(eo \<noteq> None \<longrightarrow> core s' = core s)
       \<and> (eo = None \<longrightarrow> c = int (length (apiSpecs s')))
       \<and> core (s'\<lparr>apiSpecs := [], tlsFlushes := 0\<rparr>) = core (s\<lparr>apiSpecs := [], tlsFlushes := 0\<rparr>)"
proof (cases "load_api_specs w s")
  case (Exit s1)
  with assms show ?thesis by (simp add: syncAPISpecs_def)
next
  case (Blocked s1)
  with assms show ?thesis by (simp add: syncAPISpecs_def)
next
  case (Done r s1)
  obtain sp er where r: "r = (sp, er)" by (cases r)
  have c1: "core s1 = core s" using load_api_specs_frame [OF Done] .
  show ?thesis
  proof (cases er)
    case (Some e)
    with Done r have "syncAPISpecs w s = Done (0, Some e) s1" by (simp add: syncAPISpecs_fail)
    with assms have "s' = s1" "eo = Some e" by simp_all
    with c1 show ?thesis by (simp add: core_apis)
  next
    case None
    with Done r have l: "load_api_specs w s = Done (sp, None) s1" by simp
    from assms [unfolded syncAPISpecs_ok [OF l]]
    have s': "s' = s1\<lparr>logs := logs s1 @ (Info, ''Detected %v APIs'', [AInt (int (length sp))])
                   # map (skipped_entry w (config s))
                       (filter (\<lambda>v. \<not> passes w (config s) v) (force_providers (config s) sp)),
               apiSpecs := filter (passes w (config s)) (force_providers (config s) sp),
               tlsFlushes := Suc (tlsFlushes s1)\<rparr>"
      and c: "c = int (length (filter (passes w (config s)) (force_providers (config s) sp)))"
      and eo: "eo = None"
      by auto
    have "core (s'\<lparr>apiSpecs := [], tlsFlushes := 0\<rparr>) = core (s1\<lparr>apiSpecs := [], tlsFlushes := 0\<rparr>)"
      unfolding s' by (simp add: core_def)
    hence "core (s'\<lparr>apiSpecs := [], tlsFlushes := 0\<rparr>) = core (s\<lparr>apiSpecs := [], tlsFlushes := 0\<rparr>)"
      using c1 by (simp add: core_apis)
    moreover have "c = int (length (apiSpecs s'))" unfolding s' c by simp
    ultimately show ?thesis using eo by simp
  qed
qed

lemma registries_core: "registries (core s) = registries s"
  by (simp add: registries_def core_def)

lemma snapshot_core_p: "snapshot (core (s\<lparr>policiesByID := p\<rparr>)) = snapshot s"
  by (simp add: snapshot_def core_def)

lemma snapshot_core_a: "snapshot (core (s\<lparr>apiSpecs := a, tlsFlushes := t\<rparr>)) = snapshot s"
  by (simp add: snapshot_def core_def)

lemma syncPolicies_failed_registries:
  assumes "syncPolicies w s = Done (c, Some e) s'"
  shows "registries s' = registries s"
proof -
  have "core s' = core s" using syncPolicies_frame [OF assms] by simp
  hence "registries (core s') = registries (core s)" by simp
  thus ?thesis by (simp only: registries_core)
qed

lemma syncPolicies_snapshot:
  assumes "syncPolicies w s = Done r s'"
  shows "snapshot s' = snapshot s"
proof -
  obtain c eo where "r = (c, eo)" by (cases r)
  with assms have "syncPolicies w s = Done (c, eo) s'" by simp
  from syncPolicies_frame [OF this]
  have "core (s'\<lparr>policiesByID := Map.empty\<rparr>) = core (s\<lparr>policiesByID := Map.empty\<rparr>)" by simp
  hence "snapshot (core (s'\<lparr>policiesByID := Map.empty\<rparr>))
       = snapshot (core (s\<lparr>policiesByID := Map.empty\<rparr>))" by simp
  thus ?thesis by (simp only: snapshot_core_p)
qed

lemma syncAPISpecs_snapshot:
  assumes "syncAPISpecs w s = Done r s'"
  shows "snapshot s' = snapshot s"
proof -
  obtain c eo where "r = (c, eo)" by (cases r)
  with assms have "syncAPISpecs w s = Done (c, eo) s'" by simp
  from syncAPISpecs_frame [OF this]
  have "core (s'\<lparr>apiSpecs := [], tlsFlushes := 0\<rparr>) = core (s\<lparr>apiSpecs := [], tlsFlushes := 0\<rparr>)"
    by simp
  hence "snapshot (core (s'\<lparr>apiSpecs := [], tlsFlushes := 0\<rparr>))
       = snapshot (core (s\<lparr>apiSpecs := [], tlsFlushes := 0\<rparr>))" by simp
  thus ?thesis by (simp only: snapshot_core_a)
qed

lemma registries_stable:
  "registries (s\<lparr>syncCalls := n\<rparr>) = registries s" "registries (logf l m a s) = registries s"
  "registries (effect_add ef s) = registries s" "registries (EnableEmergencyMode b s) = registries s"
  "registries (reinit_JSVM s) = registries s"
  by (simp_all add: registries_def logf_def effect_add_def EnableEmergencyMode_def reinit_JSVM_def)

lemma snapshot_stable:
  "snapshot (s\<lparr>syncCalls := n\<rparr>) = snapshot s" "snapshot (logf l m a s) = snapshot s"
  "snapshot (effect_add ef s) = snapshot s" "snapshot (EnableEmergencyMode b s) = snapshot s"
  "snapshot (reinit_JSVM s) = snapshot s"
  by (simp_all add: snapshot_def logf_def effect_add_def EnableEmergencyMode_def reinit_JSVM_def)

lemma sync_policies_failed_registries:
  assumes "syncResourcesWithReload ''policies'' conf (syncPolicies w) s = Done (c, Some e) s'"
  shows "registries s' = registries s"
proof -
  from assms have "sync_loop ''policies'' conf (syncPolicies w) 1 None s = Done (c, Some e) s'"
    by (simp add: syncResourcesWithReload_def)
  thus ?thesis
  proof (rule sync_loop_frame_failed [where P=registries and f="syncPolicies w", rotated -1])
    show "\<And>s c e s'. syncPolicies w s = Done (c, Some e) s' \<Longrightarrow> registries s' = registries s"
      by (rule syncPolicies_failed_registries)
  qed (simp_all add: registries_stable)
qed

lemma sync_policies_snapshot:
  assumes "syncResourcesWithReload ''policies'' conf (syncPolicies w) s = Done r s'"
  shows "snapshot s' = snapshot s"
proof -
  from assms have "sync_loop ''policies'' conf (syncPolicies w) 1 None s = Done r s'"
    by (simp add: syncResourcesWithReload_def)
  thus ?thesis
  proof (rule sync_loop_frame [where P=snapshot and f="syncPolicies w", rotated -1])
    show "\<And>s r s'. syncPolicies w s = Done r s' \<Longrightarrow> snapshot s' = snapshot s"
      by (rule syncPolicies_snapshot)
  qed (simp_all add: snapshot_stable)
qed

lemma sync_apis_snapshot:
  assumes "syncResourcesWithReload ''apis'' conf (syncAPISpecs w) s = Done r s'"
  shows "snapshot s' = snapshot s"
proof -
  from assms have "sync_loop ''apis'' conf (syncAPISpecs w) 1 None s = Done r s'"
    by (simp add: syncResourcesWithReload_def)
  thus ?thesis
  proof (rule sync_loop_frame [where P=snapshot and f="syncAPISpecs w", rotated -1])
    show "\<And>s r s'. syncAPISpecs w s = Done r s' \<Longrightarrow> snapshot s' = snapshot s"
      by (rule syncAPISpecs_snapshot)
  qed (simp_all add: snapshot_stable)
qed

lemma sync_apis_count:
  assumes "syncResourcesWithReload ''apis'' conf (syncAPISpecs w) s = Done (c, None) s'"
  shows "c = int (length (apiSpecs s'))"
proof -
  from assms have l: "sync_loop ''apis'' conf (syncAPISpecs w) 1 None s = Done (c, None) s'"
    by (simp add: syncResourcesWithReload_def)
  have f: "\<And>s c s'. syncAPISpecs w s = Done (c, None) s' \<Longrightarrow> c = int (length (apiSpecs s'))"
    using syncAPISpecs_frame by blast
  show ?thesis
    by (rule sync_loop_post [where Q="\<lambda>c s. c = int (length (apiSpecs s))", OF f _ l])
       (auto simp: logf_def)
qed

lemma config_reinit [simp]: "config (reinit_JSVM s) = config s"
  by (simp add: reinit_JSVM_def)

text \<open>
  C6 (as amended).  When the sync of the policies, with its retries and the emergency
  attempt, ends in an error, \<^verbatim>\<open>DoReload\<close> logs it and returns: the policy registry, the
  loaded API set and the API registry are what they were, and nothing is rebuilt or
  installed.  Each single attempt of \<^verbatim>\<open>syncPolicies\<close> that returns an error leaves the
  policy registry as it was.
\<close>

theorem failed_policy_sync_keeps_registries:
  assumes "syncResourcesWithReload ''policies'' (config s) (syncPolicies w) (reinit_JSVM s)
             = Done (c, Some e) s2"
  shows "DoReload w s = Done () (logf Error ''Error during syncing policies'' [] s2)
       \<and> policiesByID (logf Error ''Error during syncing policies'' [] s2) = policiesByID s
       \<and> apiSpecs (logf Error ''Error during syncing policies'' [] s2) = apiSpecs s
       \<and> apisByID (logf Error ''Error during syncing policies'' [] s2) = apisByID s
       \<and> appRebuilds (logf Error ''Error during syncing policies'' [] s2) = appRebuilds s
       \<and> muxInstalls (logf Error ''Error during syncing policies'' [] s2) = muxInstalls s
       \<and> (\<forall>t c' e' t'. syncPolicies w t = Done (c', Some e') t' \<longrightarrow>
             policiesByID t' = policiesByID t)"
proof -
  have run: "DoReload w s = Done () (logf Error ''Error during syncing policies'' [] s2)"
    using assms by (simp add: DoReload_def Let_def)
  have "registries s2 = registries (reinit_JSVM s)"
    using sync_policies_failed_registries [OF assms] .
  hence "registries (logf Error ''Error during syncing policies'' [] s2) = registries s"
    by (simp add: registries_stable)
  hence fr: "policiesByID (logf Error ''Error during syncing policies'' [] s2) = policiesByID s"
       "apiSpecs (logf Error ''Error during syncing policies'' [] s2) = apiSpecs s"
       "apisByID (logf Error ''Error during syncing policies'' [] s2) = apisByID s"
       "appRebuilds (logf Error ''Error during syncing policies'' [] s2) = appRebuilds s"
       "muxInstalls (logf Error ''Error during syncing policies'' [] s2) = muxInstalls s"
    by (simp_all add: registries_def)
  have att: "\<forall>t c' e' t'. syncPolicies w t = Done (c', Some e') t' \<longrightarrow>
             policiesByID t' = policiesByID t"
  proof (intro allI impI)
    fix t c' e' t'
    assume "syncPolicies w t = Done (c', Some e') t'"
    from syncPolicies_failed_registries [OF this] show "policiesByID t' = policiesByID t"
      by (simp add: registries_def)
  qed
  from run fr att show ?thesis by blast
qed

text \<open>
  C3.  When both syncs succeed, the API sync reports no definition and the registry
  \<^verbatim>\<open>apisByID\<close> is empty, the reload is abandoned: \<^verbatim>\<open>DoReload\<close> returns after the
  warning, marked successful, and neither the rebuild of the apps nor the mux install
  has run.
\<close>

theorem empty_sync_on_empty_registry_abandons_reload:
  assumes "syncResourcesWithReload ''policies'' (config s) (syncPolicies w) (reinit_JSVM s)
             = Done (cp, None) s2"
      and "syncResourcesWithReload ''apis'' (config s2) (syncAPISpecs w) s2 = Done (0, None) s3"
      and "apisByIDLen s = 0"
  shows "DoReload w s =
           Done () ((logf Warning ''No API Definitions found, not reloading'' [] s3)
                       \<lparr>performedSuccessfulReload := True\<rparr>)
       \<and> appRebuilds s3 = appRebuilds s \<and> muxInstalls s3 = muxInstalls s
       \<and> apisByID s3 = apisByID s"
proof -
  have "snapshot s2 = snapshot (reinit_JSVM s)" using sync_policies_snapshot [OF assms(1)] .
  moreover have "snapshot s3 = snapshot s2" using sync_apis_snapshot [OF assms(2)] .
  ultimately have sn: "snapshot s3 = snapshot s" by (simp add: snapshot_stable)
  hence fr: "appRebuilds s3 = appRebuilds s" "muxInstalls s3 = muxInstalls s"
      "apisByID s3 = apisByID s"
    by (simp_all add: snapshot_def)
  have "apisByIDLen s3 = 0" using assms(3) fr(3) by (simp add: apisByIDLen_def)
  hence "DoReload w s =
           Done () ((logf Warning ''No API Definitions found, not reloading'' [] s3)
                       \<lparr>performedSuccessfulReload := True\<rparr>)"
    using assms(1,2) by (simp add: DoReload_def Let_def)
  with fr show ?thesis by simp
qed

text \<open>
  C1 (as amended).  When both syncs succeed, the API sync reports no definition and the
  registry \<^verbatim>\<open>apisByID\<close> is not empty, the reload goes on: the loaded API set is empty,
  \<^verbatim>\<open>loadGlobalApps\<close> runs on it, and the registry it rebuilds is empty.
\<close>

theorem empty_sync_on_loaded_registry_reloads:
  assumes "syncResourcesWithReload ''policies'' (config s) (syncPolicies w) (reinit_JSVM s)
             = Done (cp, None) s2"
      and "syncResourcesWithReload ''apis'' (config s2) (syncAPISpecs w) s2 = Done (0, None) s3"
      and "apisByIDLen s \<noteq> 0"
  shows "DoReload w s =
           Done () (logf Info ''API reload complete'' []
                      ((loadGlobalApps s3)\<lparr>performedSuccessfulReload := True\<rparr>))
       \<and> apiSpecs s3 = []
       \<and> apisByID (loadGlobalApps s3) = Map.empty
       \<and> appRebuilds (loadGlobalApps s3) = Suc (appRebuilds s)
       \<and> muxInstalls (loadGlobalApps s3) = Suc (muxInstalls s)"
proof -
  have "snapshot s2 = snapshot (reinit_JSVM s)" using sync_policies_snapshot [OF assms(1)] .
  moreover have "snapshot s3 = snapshot s2" using sync_apis_snapshot [OF assms(2)] .
  ultimately have sn: "snapshot s3 = snapshot s" by (simp add: snapshot_stable)
  hence fr: "appRebuilds s3 = appRebuilds s" "muxInstalls s3 = muxInstalls s"
      "apisByID s3 = apisByID s"
    by (simp_all add: snapshot_def)
  have "apisByIDLen s3 \<noteq> 0" using assms(3) fr(3) by (simp add: apisByIDLen_def)
  hence run: "DoReload w s =
           Done () (logf Info ''API reload complete'' []
                      ((loadGlobalApps s3)\<lparr>performedSuccessfulReload := True\<rparr>))"
    using assms(1,2) by (simp add: DoReload_def Let_def)
  have e: "apiSpecs s3 = []" using sync_apis_count [OF assms(2)] by simp
  from run e fr show ?thesis by (simp add: loadGlobalApps_def)
qed

lemma call_quiet:
  assumes quiet: "\<forall>t r t'. f t = Done r t' \<longrightarrow> syncCalls t' = syncCalls t \<and> effects t' = effects t"
      and "call f s = Done r s1"
  shows "syncCalls s1 = Suc (syncCalls s)" "effects s1 = effects s"
  using quiet [rule_format, of "s\<lparr>syncCalls := Suc (syncCalls s)\<rparr>" r s1] assms(2)
  by (simp_all add: call_def)

lemma emergency_quiet:
  assumes quiet: "\<forall>t r t'. f t = Done r t' \<longrightarrow> syncCalls t' = syncCalls t \<and> effects t' = effects t"
      and "emergency_attempt resource conf f e s2 = Done r s'"
  shows "effects s' = effects s2
       \<and> (if UseRPC conf then syncCalls s' = Suc (syncCalls s2) else syncCalls s' = syncCalls s2)"
proof (cases "UseRPC conf")
  case False
  with assms(2) show ?thesis by (auto simp: emergency_attempt_def)
next
  case True
  define s4 where "s4 = EnableEmergencyMode True
                   (logf Warning ''All %s sync attempts failed, triggering emergency mode''
                      [AStr resource] s2)"
  have s4: "syncCalls s4 = syncCalls s2" "effects s4 = effects s2"
    by (simp_all add: s4_def EnableEmergencyMode_def logf_def)
  show ?thesis
  proof (cases "call f s4")
    case (Exit x)
    with assms(2) True show ?thesis by (simp add: emergency_attempt_def s4_def)
  next
    case (Blocked x)
    with assms(2) True show ?thesis by (simp add: emergency_attempt_def s4_def)
  next
    case (Done r5 s5)
    note q = call_quiet [where f=f, OF quiet Done]
    from assms(2) True Done have "s' = s5 \<or> s' = logf Info
        ''Successfully loaded %s from backup after enabling emergency mode'' [AStr resource] s5"
      by (auto simp: emergency_attempt_def s4_def split: option.splits)
    thus ?thesis using q s4 True by (auto simp: logf_def)
  qed
qed

lemma sync_loop_attempts:
  assumes quiet: "\<forall>t r t'. f t = Done r t' \<longrightarrow> syncCalls t' = syncCalls t \<and> effects t' = effects t"
  shows "1 \<le> i \<Longrightarrow> i \<le> int64 (RetryAttempts conf + 1) \<Longrightarrow>
         sync_loop resource conf f i err s = Done r s' \<Longrightarrow>
         \<exists>k. i \<le> k \<and> k \<le> int64 (RetryAttempts conf + 1)
           \<and> effects s' = effects s @ replicate (nat (k - i)) (Sleep (int64 (Interval conf * Second)))
           \<and> (syncCalls s' = syncCalls s + nat (k - i + 1)
              \<or> (UseRPC conf \<and> k = int64 (RetryAttempts conf + 1)
                  \<and> syncCalls s' = syncCalls s + nat (k - i + 1) + 1))"
proof (induction "nat (int64 (RetryAttempts conf + 1) - i)" arbitrary: i err s)
  case 0
  hence i: "i = int64 (RetryAttempts conf + 1)" by simp
  show ?case
  proof (cases rule: sync_loop_cases [where i=i and conf=conf and f=f and s=s])
    case over
    with "0.prems" show ?thesis by simp
  next
    case (ok c s1)
    with "0.prems" have "s' = s1" by (simp add: sync_loop_ok)
    with call_quiet [where f=f, OF quiet ok(2)] "0.prems"(2) show ?thesis
      by (intro exI [of _ i]) simp
  next
    case (exit s1)
    with "0.prems" show ?thesis by (simp add: sync_loop_exit)
  next
    case (blocked s1)
    with "0.prems" show ?thesis by (simp add: sync_loop_blocked)
  next
    case (last c e s1)
    have em: "emergency_attempt resource conf f e (attempt_failed resource e i s1) = Done r s'"
      using "0.prems" last by (simp add: sync_loop_last)
    have a: "syncCalls (attempt_failed resource e i s1) = Suc (syncCalls s)"
            "effects (attempt_failed resource e i s1) = effects s"
      using call_quiet [where f=f, OF quiet last(2)] by (simp_all add: attempt_failed_def logf_def)
    from emergency_quiet [where f=f, OF quiet em] a i show ?thesis
      by (intro exI [of _ i]) (auto split: if_splits)
  next
    case (retry c e s1)
    with i show ?thesis by simp
  qed
next
  case (Suc n)
  hence lt: "i < int64 (RetryAttempts conf + 1)" by simp
  have nx: "int64 (i + 1) = i + 1" using Suc.prems(1) lt by (rule int64_next)
  show ?case
  proof (cases rule: sync_loop_cases [where i=i and conf=conf and f=f and s=s])
    case over
    with Suc.prems show ?thesis by simp
  next
    case (ok c s1)
    with Suc.prems have "s' = s1" by (simp add: sync_loop_ok)
    with call_quiet [where f=f, OF quiet ok(2)] Suc.prems(2) show ?thesis
      by (intro exI [of _ i]) simp
  next
    case (exit s1)
    with Suc.prems show ?thesis by (simp add: sync_loop_exit)
  next
    case (blocked s1)
    with Suc.prems show ?thesis by (simp add: sync_loop_blocked)
  next
    case (last c e s1)
    with lt show ?thesis by simp
  next
    case (retry c e s1)
    define s2 where "s2 = effect_add (Sleep (int64 (Interval conf * Second)))
                            (attempt_failed resource e i s1)"
    have a: "syncCalls s2 = Suc (syncCalls s)"
            "effects s2 = effects s @ [Sleep (int64 (Interval conf * Second))]"
      using call_quiet [where f=f, OF quiet retry(2)]
      by (simp_all add: s2_def attempt_failed_def logf_def effect_add_def)
    have n: "n = nat (int64 (RetryAttempts conf + 1) - (i + 1))" using Suc.hyps(2) by simp
    have one: "1 \<le> i + 1" using Suc.prems(1) by simp
    have le: "i + 1 \<le> int64 (RetryAttempts conf + 1)" using lt by simp
    have run: "sync_loop resource conf f (i + 1) (Some e) s2 = Done r s'"
      using Suc.prems retry nx by (simp add: sync_loop_retry s2_def)
    from Suc.hyps(1) [OF n one le run] obtain k where k:
      "i + 1 \<le> k" "k \<le> int64 (RetryAttempts conf + 1)"
      "effects s' = effects s2 @ replicate (nat (k - (i + 1))) (Sleep (int64 (Interval conf * Second)))"
      "syncCalls s' = syncCalls s2 + nat (k - (i + 1) + 1)
         \<or> (UseRPC conf \<and> k = int64 (RetryAttempts conf + 1)
             \<and> syncCalls s' = syncCalls s2 + nat (k - (i + 1) + 1) + 1)"
      by blast
    have "nat (k - i) = Suc (nat (k - (i + 1)))" using k(1) by simp
    hence e: "effects s' = effects s @ replicate (nat (k - i)) (Sleep (int64 (Interval conf * Second)))"
      using k(3) a(2) by (simp add: replicate_app_Cons_same)
    have "nat (k - i + 1) = Suc (nat (k - (i + 1) + 1))" using k(1) by simp
    hence c: "syncCalls s' = syncCalls s + nat (k - i + 1)
         \<or> (UseRPC conf \<and> k = int64 (RetryAttempts conf + 1)
             \<and> syncCalls s' = syncCalls s + nat (k - i + 1) + 1)"
      using k(4) a(1) by auto
    from k(1,2) e c show ?thesis by (intro exI [of _ k]) simp
  qed
qed

lemma sync_loop_all_fail:
  assumes quiet: "\<forall>t r t'. f t = Done r t' \<longrightarrow> syncCalls t' = syncCalls t \<and> effects t' = effects t"
      and fails: "\<forall>t. config t = cfg \<and> \<not> emergencyMode t \<longrightarrow>
                    (\<exists>c e t'. f t = Done (c, Some e) t' \<and> config t' = cfg \<and> \<not> emergencyMode t')"
  shows "1 \<le> i \<Longrightarrow> i \<le> int64 (RetryAttempts conf + 1) \<Longrightarrow> config s = cfg \<Longrightarrow>
         \<not> emergencyMode s \<Longrightarrow>
         \<exists>e s2. sync_loop resource conf f i err s = emergency_attempt resource conf f e s2
           \<and> effects s2 = effects s @ replicate (nat (int64 (RetryAttempts conf + 1) - i))
                                          (Sleep (int64 (Interval conf * Second)))
           \<and> syncCalls s2 = syncCalls s + nat (int64 (RetryAttempts conf + 1) - i) + 1
           \<and> config s2 = cfg \<and> \<not> emergencyMode s2"
proof (induction "nat (int64 (RetryAttempts conf + 1) - i)" arbitrary: i err s)
  case 0
  hence i: "i = int64 (RetryAttempts conf + 1)" by simp
  have "config (s\<lparr>syncCalls := Suc (syncCalls s)\<rparr>) = cfg
        \<and> \<not> emergencyMode (s\<lparr>syncCalls := Suc (syncCalls s)\<rparr>)"
    using "0.prems"(3,4) by simp
  from fails [rule_format, OF this] obtain c e s1 where
    c1: "call f s = Done (c, Some e) s1" "config s1 = cfg" "\<not> emergencyMode s1"
    by (auto simp: call_def)
  note q1 = call_quiet [where f=f, OF quiet c1(1)]
  define s2 where "s2 = attempt_failed resource e i s1"
  have s2: "syncCalls s2 = Suc (syncCalls s)" "effects s2 = effects s" "config s2 = cfg"
      "\<not> emergencyMode s2"
    using q1 c1(2,3) by (simp_all add: s2_def attempt_failed_def logf_def)
  have run: "sync_loop resource conf f i err s = emergency_attempt resource conf f e s2"
    using i c1(1) by (simp add: sync_loop_last s2_def)
  with s2 i show ?case by (intro exI [of _ e] exI [of _ s2]) simp
next
  case (Suc n)
  hence lt: "i < int64 (RetryAttempts conf + 1)" by simp
  have nx: "int64 (i + 1) = i + 1" using Suc.prems(1) lt by (rule int64_next)
  have "config (s\<lparr>syncCalls := Suc (syncCalls s)\<rparr>) = cfg
        \<and> \<not> emergencyMode (s\<lparr>syncCalls := Suc (syncCalls s)\<rparr>)"
    using Suc.prems(3,4) by simp
  from fails [rule_format, OF this] obtain c e s1 where
    c1: "call f s = Done (c, Some e) s1" "config s1 = cfg" "\<not> emergencyMode s1"
    by (auto simp: call_def)
  note q1 = call_quiet [where f=f, OF quiet c1(1)]
  define s2 where "s2 = effect_add (Sleep (int64 (Interval conf * Second)))
                          (attempt_failed resource e i s1)"
  have s2: "syncCalls s2 = Suc (syncCalls s)"
      "effects s2 = effects s @ [Sleep (int64 (Interval conf * Second))]"
      "config s2 = cfg" "\<not> emergencyMode s2"
    using q1 c1(2,3) by (simp_all add: s2_def attempt_failed_def logf_def effect_add_def)
  have run: "sync_loop resource conf f i err s = sync_loop resource conf f (i + 1) (Some e) s2"
    using lt c1(1) nx by (simp add: sync_loop_retry s2_def)
  have n: "n = nat (int64 (RetryAttempts conf + 1) - (i + 1))" using Suc.hyps(2) by simp
  have one: "1 \<le> i + 1" using Suc.prems(1) by simp
  have le: "i + 1 \<le> int64 (RetryAttempts conf + 1)" using lt by simp
  from Suc.hyps(1) [OF n one le s2(3,4), of "Some e"] obtain e' s' where r:
    "sync_loop resource conf f (i + 1) (Some e) s2 = emergency_attempt resource conf f e' s'"
    "effects s' = effects s2 @ replicate (nat (int64 (RetryAttempts conf + 1) - (i + 1)))
                                  (Sleep (int64 (Interval conf * Second)))"
    "syncCalls s' = syncCalls s2 + nat (int64 (RetryAttempts conf + 1) - (i + 1)) + 1"
    "config s' = cfg" "\<not> emergencyMode s'"
    by blast
  have m: "nat (int64 (RetryAttempts conf + 1) - i)
             = Suc (nat (int64 (RetryAttempts conf + 1) - (i + 1)))"
    using lt by simp
  have e: "effects s' = effects s @ replicate (nat (int64 (RetryAttempts conf + 1) - i))
                                        (Sleep (int64 (Interval conf * Second)))"
    using r(2) s2(2) by (simp add: m replicate_app_Cons_same)
  have c: "syncCalls s' = syncCalls s + nat (int64 (RetryAttempts conf + 1) - i) + 1"
    using r(3) s2(1) by (simp add: m)
  from run r(1) e c r(4,5) show ?case by (intro exI [of _ e'] exI [of _ s']) simp
qed

lemma syncPolicies_quiet:
  "\<forall>t r t'. syncPolicies w t = Done r t' \<longrightarrow> syncCalls t' = syncCalls t \<and> effects t' = effects t"
proof (intro allI impI)
  fix t r t'
  assume a: "syncPolicies w t = Done r t'"
  obtain c eo where "r = (c, eo)" by (cases r)
  with a have "syncPolicies w t = Done (c, eo) t'" by simp
  from syncPolicies_frame [OF this]
  have "core (t'\<lparr>policiesByID := Map.empty\<rparr>) = core (t\<lparr>policiesByID := Map.empty\<rparr>)" by simp
  hence "syncCalls (core (t'\<lparr>policiesByID := Map.empty\<rparr>)) = syncCalls (core (t\<lparr>policiesByID := Map.empty\<rparr>))"
        "effects (core (t'\<lparr>policiesByID := Map.empty\<rparr>)) = effects (core (t\<lparr>policiesByID := Map.empty\<rparr>))"
    by simp_all
  thus "syncCalls t' = syncCalls t \<and> effects t' = effects t" by (simp add: core_def)
qed


text \<open>
  C4.  For the resources \<open>apis\<close> and \<open>policies\<close>, with a retry count from 0 up to the
  largest \<^verbatim>\<open>int\<close> less one and a sync function that neither waits nor touches the call
  counter.  A sync that returns has called the sync function at most \<^verbatim>\<open>RetryAttempts+1\<close>
  times, or once more in RPC mode after that many, with a wait of \<^verbatim>\<open>Interval\<close> seconds
  between two attempts.  When the sync function fails in every state that is not in
  emergency mode, all \<^verbatim>\<open>RetryAttempts+1\<close> attempts are made, \<^verbatim>\<open>RetryAttempts\<close> waits
  apart; without RPC the sync then fails with the last error; with RPC the warning is
  logged, emergency mode is enabled and the sync function is called exactly once more,
  and that call decides the result: its count on success, the sync error on failure.  In
  emergency mode \<^verbatim>\<open>LoadPoliciesFromRPC\<close> reads the backup.
\<close>

theorem sync_retries_then_emergency:
  assumes known: "resource = ''apis'' \<or> resource = ''policies''"
      and attempts: "0 \<le> RetryAttempts conf \<and> RetryAttempts conf < 9223372036854775807"
      and quiet: "\<forall>t r t'. f t = Done r t' \<longrightarrow> syncCalls t' = syncCalls t \<and> effects t' = effects t"
  shows "(\<forall>r s'. syncResourcesWithReload resource conf f s = Done r s' \<longrightarrow>
           (\<exists>k. 1 \<le> k \<and> k \<le> RetryAttempts conf + 1
              \<and> effects s' = effects s @ replicate (nat (k - 1))
                                             (Sleep (int64 (Interval conf * Second)))
              \<and> (syncCalls s' = syncCalls s + nat k
                 \<or> (UseRPC conf \<and> k = RetryAttempts conf + 1
                     \<and> syncCalls s' = syncCalls s + nat k + 1))))
       \<and> (\<not> emergencyMode s
           \<and> (\<forall>t. config t = config s \<and> \<not> emergencyMode t \<longrightarrow>
                  (\<exists>c e t'. f t = Done (c, Some e) t' \<and> config t' = config s
                      \<and> \<not> emergencyMode t')) \<longrightarrow>
           (\<exists>e s2. effects s2 = effects s @ replicate (nat (RetryAttempts conf))
                                               (Sleep (int64 (Interval conf * Second)))
              \<and> syncCalls s2 = syncCalls s + nat (RetryAttempts conf) + 1
              \<and> config s2 = config s \<and> \<not> emergencyMode s2
              \<and> syncResourcesWithReload resource conf f s =
                  (if UseRPC conf then
                     (case call f (EnableEmergencyMode True
                                     (logf Warning
                                        ''All %s sync attempts failed, triggering emergency mode''
                                        [AStr resource] s2)) of
                        Exit s5 \<Rightarrow> Exit s5
                      | Blocked s5 \<Rightarrow> Blocked s5
                      | Done (c, None) s5 \<Rightarrow>
                          Done (c, None)
                            (logf Info
                               ''Successfully loaded %s from backup after enabling emergency mode''
                               [AStr resource] s5)
                      | Done (c, Some e') s5 \<Rightarrow>
                          Done (0, Some (ErrSyncFailed resource (Some e'))) s5)
                   else Done (0, Some (ErrSyncFailed resource (Some e))) s2)
              \<and> (\<forall>r s'. syncResourcesWithReload resource conf f s = Done r s' \<longrightarrow>
                    effects s' = effects s2
                    \<and> syncCalls s' = syncCalls s2 + (if UseRPC conf then 1 else 0))))
       \<and> (\<forall>w orgId allowExplicit t. emergencyMode t \<longrightarrow>
             LoadPoliciesFromRPC w orgId allowExplicit t = LoadPoliciesFromRPCBackup w t)
       \<and> (0 \<le> Interval conf \<and> Interval conf \<le> 9223372036 \<longrightarrow>
            int64 (Interval conf * Second) = Interval conf * 1000000000)"
proof -
  have lim: "int64 (RetryAttempts conf + 1) = RetryAttempts conf + 1"
    using attempts by (simp add: int64_id)
  have unf: "syncResourcesWithReload resource conf f s = sync_loop resource conf f 1 None s"
    using known by (auto simp: syncResourcesWithReload_def)
  have one: "(1::int) \<le> int64 (RetryAttempts conf + 1)" using attempts by (simp add: lim)
  have A: "\<forall>r s'. syncResourcesWithReload resource conf f s = Done r s' \<longrightarrow>
           (\<exists>k. 1 \<le> k \<and> k \<le> RetryAttempts conf + 1
              \<and> effects s' = effects s @ replicate (nat (k - 1))
                                             (Sleep (int64 (Interval conf * Second)))
              \<and> (syncCalls s' = syncCalls s + nat k
                 \<or> (UseRPC conf \<and> k = RetryAttempts conf + 1
                     \<and> syncCalls s' = syncCalls s + nat k + 1)))"
  proof (intro allI impI)
    fix r s'
    assume "syncResourcesWithReload resource conf f s = Done r s'"
    hence "sync_loop resource conf f 1 None s = Done r s'" by (simp add: unf)
    from sync_loop_attempts [where f=f, OF quiet _ one this]
    show "\<exists>k. 1 \<le> k \<and> k \<le> RetryAttempts conf + 1
              \<and> effects s' = effects s @ replicate (nat (k - 1))
                                             (Sleep (int64 (Interval conf * Second)))
              \<and> (syncCalls s' = syncCalls s + nat k
                 \<or> (UseRPC conf \<and> k = RetryAttempts conf + 1
                     \<and> syncCalls s' = syncCalls s + nat k + 1))"
      by (simp add: lim)
  qed
  have B: "\<not> emergencyMode s
           \<and> (\<forall>t. config t = config s \<and> \<not> emergencyMode t \<longrightarrow>
                  (\<exists>c e t'. f t = Done (c, Some e) t' \<and> config t' = config s
                      \<and> \<not> emergencyMode t')) \<longrightarrow>
           (\<exists>e s2. effects s2 = effects s @ replicate (nat (RetryAttempts conf))
                                               (Sleep (int64 (Interval conf * Second)))
              \<and> syncCalls s2 = syncCalls s + nat (RetryAttempts conf) + 1
              \<and> config s2 = config s \<and> \<not> emergencyMode s2
              \<and> syncResourcesWithReload resource conf f s =
                  (if UseRPC conf then
                     (case call f (EnableEmergencyMode True
                                     (logf Warning
                                        ''All %s sync attempts failed, triggering emergency mode''
                                        [AStr resource] s2)) of
                        Exit s5 \<Rightarrow> Exit s5
                      | Blocked s5 \<Rightarrow> Blocked s5
                      | Done (c, None) s5 \<Rightarrow>
                          Done (c, None)
                            (logf Info
                               ''Successfully loaded %s from backup after enabling emergency mode''
                               [AStr resource] s5)
                      | Done (c, Some e') s5 \<Rightarrow>
                          Done (0, Some (ErrSyncFailed resource (Some e'))) s5)
                   else Done (0, Some (ErrSyncFailed resource (Some e))) s2)
              \<and> (\<forall>r s'. syncResourcesWithReload resource conf f s = Done r s' \<longrightarrow>
                    effects s' = effects s2
                    \<and> syncCalls s' = syncCalls s2 + (if UseRPC conf then 1 else 0)))"
  proof (intro impI, elim conjE)
    assume ne: "\<not> emergencyMode s"
      and fails: "\<forall>t. config t = config s \<and> \<not> emergencyMode t \<longrightarrow>
                  (\<exists>c e t'. f t = Done (c, Some e) t' \<and> config t' = config s
                      \<and> \<not> emergencyMode t')"
    from sync_loop_all_fail [where f=f and cfg="config s" and s=s and i=1 and conf=conf
        and resource=resource and err=None, OF quiet fails _ one refl ne]
    obtain e s2 where r:
      "sync_loop resource conf f 1 None s = emergency_attempt resource conf f e s2"
      "effects s2 = effects s @ replicate (nat (int64 (RetryAttempts conf + 1) - 1))
                                    (Sleep (int64 (Interval conf * Second)))"
      "syncCalls s2 = syncCalls s + nat (int64 (RetryAttempts conf + 1) - 1) + 1"
      "config s2 = config s" "\<not> emergencyMode s2"
      by auto
    have e2: "effects s2 = effects s @ replicate (nat (RetryAttempts conf))
                                               (Sleep (int64 (Interval conf * Second)))"
      using r(2) by (simp add: lim)
    have c2: "syncCalls s2 = syncCalls s + nat (RetryAttempts conf) + 1"
      using r(3) by (simp add: lim)
    have run: "syncResourcesWithReload resource conf f s =
                  (if UseRPC conf then
                     (case call f (EnableEmergencyMode True
                                     (logf Warning
                                        ''All %s sync attempts failed, triggering emergency mode''
                                        [AStr resource] s2)) of
                        Exit s5 \<Rightarrow> Exit s5
                      | Blocked s5 \<Rightarrow> Blocked s5
                      | Done (c, None) s5 \<Rightarrow>
                          Done (c, None)
                            (logf Info
                               ''Successfully loaded %s from backup after enabling emergency mode''
                               [AStr resource] s5)
                      | Done (c, Some e') s5 \<Rightarrow>
                          Done (0, Some (ErrSyncFailed resource (Some e'))) s5)
                   else Done (0, Some (ErrSyncFailed resource (Some e))) s2)"
      unfolding unf r(1)
      by (simp add: emergency_attempt_def split: outcome.split prod.split option.split)
    have fin: "\<forall>r s'. syncResourcesWithReload resource conf f s = Done r s' \<longrightarrow>
                    effects s' = effects s2
                    \<and> syncCalls s' = syncCalls s2 + (if UseRPC conf then 1 else 0)"
    proof (intro allI impI)
      fix r' s'
      assume "syncResourcesWithReload resource conf f s = Done r' s'"
      hence "emergency_attempt resource conf f e s2 = Done r' s'" by (simp add: unf r(1))
      from emergency_quiet [where f=f, OF quiet this]
      show "effects s' = effects s2
            \<and> syncCalls s' = syncCalls s2 + (if UseRPC conf then 1 else 0)"
        by (simp split: if_splits)
    qed
    from e2 c2 r(4,5) run fin
    show "\<exists>e s2. effects s2 = effects s @ replicate (nat (RetryAttempts conf))
                                               (Sleep (int64 (Interval conf * Second)))
              \<and> syncCalls s2 = syncCalls s + nat (RetryAttempts conf) + 1
              \<and> config s2 = config s \<and> \<not> emergencyMode s2
              \<and> syncResourcesWithReload resource conf f s =
                  (if UseRPC conf then
                     (case call f (EnableEmergencyMode True
                                     (logf Warning
                                        ''All %s sync attempts failed, triggering emergency mode''
                                        [AStr resource] s2)) of
                        Exit s5 \<Rightarrow> Exit s5
                      | Blocked s5 \<Rightarrow> Blocked s5
                      | Done (c, None) s5 \<Rightarrow>
                          Done (c, None)
                            (logf Info
                               ''Successfully loaded %s from backup after enabling emergency mode''
                               [AStr resource] s5)
                      | Done (c, Some e') s5 \<Rightarrow>
                          Done (0, Some (ErrSyncFailed resource (Some e'))) s5)
                   else Done (0, Some (ErrSyncFailed resource (Some e))) s2)
              \<and> (\<forall>r s'. syncResourcesWithReload resource conf f s = Done r s' \<longrightarrow>
                    effects s' = effects s2
                    \<and> syncCalls s' = syncCalls s2 + (if UseRPC conf then 1 else 0))"
      by (intro exI [of _ e] exI [of _ s2] conjI)
  qed
  have C: "\<forall>w orgId allowExplicit t. emergencyMode t \<longrightarrow>
             LoadPoliciesFromRPC w orgId allowExplicit t = LoadPoliciesFromRPCBackup w t"
    by (simp add: LoadPoliciesFromRPC_def)
  have E: "0 \<le> Interval conf \<and> Interval conf \<le> 9223372036 \<longrightarrow>
            int64 (Interval conf * Second) = Interval conf * 1000000000"
    by (simp add: Second_def int64_id)
  from A B C E show ?thesis by (intro conjI)
qed

lemma sync_once:
  assumes "resource = ''apis'' \<or> resource = ''policies''"
      and "0 \<le> RetryAttempts conf \<and> RetryAttempts conf < 9223372036854775807"
      and "call f s = Done (c, None) s1"
  shows "syncResourcesWithReload resource conf f s = Done (c, None) s1"
proof -
  have "(1::int) \<le> int64 (RetryAttempts conf + 1)" using assms(2) by (simp add: int64_id)
  from sync_loop_ok [OF this assms(3)] assms(1) show ?thesis
    by (auto simp: syncResourcesWithReload_def)
qed

lemma policy_skip:
  assumes "config s = dashboard_config"
  shows "call (syncPolicies w) s = Done (0, None) (after_policy_skip s)"
  using assms
  by (simp add: call_def syncPolicies_def dashboard_config_def base_config_def logf_def Let_def
      after_policy_skip_def)

lemma empty_api_sync:
  assumes "config s = dashboard_config"
  shows "call (syncAPISpecs empty_dashboard) s = Done (0, None) (after_empty_api_sync s)"
  using assms
  by (simp add: call_def syncAPISpecs_def load_api_specs_def buildDashboardConnStr_def
      empty_dashboard_def base_world_def force_providers_def tick_def
      dashboard_config_def base_config_def logf_def Let_def after_empty_api_sync_def)

lemma dashboard_policies_synced:
  assumes "config s = dashboard_config"
  shows "syncResourcesWithReload ''policies'' (config s) (syncPolicies w) (reinit_JSVM s)
           = Done (0, None) (after_policy_skip s)"
proof -
  have r: "reinit_JSVM s = s" using assms
    by (simp add: reinit_JSVM_def dashboard_config_def base_config_def)
  have "0 \<le> RetryAttempts (config s) \<and> RetryAttempts (config s) < 9223372036854775807"
    using assms by (simp add: dashboard_config_def base_config_def)
  from sync_once [OF _ this policy_skip [OF assms]] show ?thesis unfolding r by simp
qed

lemma dashboard_apis_synced_empty:
  assumes "config s = dashboard_config"
  shows "syncResourcesWithReload ''apis'' (config s) (syncAPISpecs empty_dashboard) s
           = Done (0, None) (after_empty_api_sync s)"
proof -
  have "0 \<le> RetryAttempts (config s) \<and> RetryAttempts (config s) < 9223372036854775807"
    using assms by (simp add: dashboard_config_def base_config_def)
  from sync_once [OF _ this empty_api_sync [OF assms]] show ?thesis by simp
qed

lemma config_after_policy_skip [simp]: "config (after_policy_skip s) = config s"
  by (simp add: after_policy_skip_def)

text \<open>
  The claim as stated (the registry is left unchanged) fails for a gateway with one API
  loaded whose dashboard answers with no API: after the reload the loaded set and the
  registry are empty and the mux has been installed once.
\<close>

theorem zero_apis_clear_loaded_registry_counterexample:
  "apisByIDLen loaded_state = 1
   \<and> apiSpecs loaded_state = [spec_orders]
   \<and> apisByID loaded_state ''a1'' = Some spec_orders
   \<and> FromDashboardService empty_dashboard 0 ''http://dashboard/system/apis'' = ([], None)
   \<and> DoReload empty_dashboard loaded_state =
       Done ()
         (loaded_state
            \<lparr>apiSpecs := [], apisByID := Map.empty, performedSuccessfulReload := True,
             logs := [(Info, ''Loading policies'', []),
                      (Debug, ''No policy record name defined, skipping...'', []),
                      (Debug, ''Downloading API Configurations from Dashboard Service'', []),
                      (Info, ''Detected %v APIs'', [AInt 0]),
                      (Info, ''API reload complete'', [])],
             io := 1, syncCalls := 2, tlsFlushes := 1, appRebuilds := 1, muxInstalls := 1\<rparr>)"
proof -
  have c: "config loaded_state = dashboard_config" by (simp add: loaded_state_def)
  have c2: "config (after_policy_skip loaded_state) = dashboard_config" using c by simp
  have len: "apisByIDLen loaded_state = 1"
    by (simp add: apisByIDLen_def map_len_def loaded_state_def)
  have len3: "apisByIDLen (after_empty_api_sync (after_policy_skip loaded_state)) = 1"
    by (simp add: apisByIDLen_def map_len_def loaded_state_def after_empty_api_sync_def
        after_policy_skip_def)
  have p: "syncResourcesWithReload ''policies'' (config loaded_state)
             (syncPolicies empty_dashboard) (reinit_JSVM loaded_state)
           = Done (0, None) (after_policy_skip loaded_state)"
    by (rule dashboard_policies_synced [OF c])
  have a: "syncResourcesWithReload ''apis'' (config loaded_state)
             (syncAPISpecs empty_dashboard) (after_policy_skip loaded_state)
           = Done (0, None) (after_empty_api_sync (after_policy_skip loaded_state))"
    using dashboard_apis_synced_empty [OF c2] by simp
  have "DoReload empty_dashboard loaded_state =
          Done () (logf Info ''API reload complete'' []
             ((loadGlobalApps (after_empty_api_sync (after_policy_skip loaded_state)))
                \<lparr>performedSuccessfulReload := True\<rparr>))"
    by (simp add: DoReload_def Let_def p a len3)
  moreover have "logf Info ''API reload complete'' []
             ((loadGlobalApps (after_empty_api_sync (after_policy_skip loaded_state)))
                \<lparr>performedSuccessfulReload := True\<rparr>)
     = loaded_state
            \<lparr>apiSpecs := [], apisByID := Map.empty, performedSuccessfulReload := True,
             logs := [(Info, ''Loading policies'', []),
                      (Debug, ''No policy record name defined, skipping...'', []),
                      (Debug, ''Downloading API Configurations from Dashboard Service'', []),
                      (Info, ''Detected %v APIs'', [AInt 0]),
                      (Info, ''API reload complete'', [])],
             io := 1, syncCalls := 2, tlsFlushes := 1, appRebuilds := 1, muxInstalls := 1\<rparr>"
    by (simp add: logf_def loadGlobalApps_def after_empty_api_sync_def after_policy_skip_def
        loaded_state_def base_state_def)
  ultimately show ?thesis
    using len by (simp add: loaded_state_def empty_dashboard_def)
qed

theorem empty_sync_on_loaded_registry_reloads_witness:
  "DoReload empty_dashboard loaded_state =
     Done () (logf Info ''API reload complete'' []
        ((loadGlobalApps (after_empty_api_sync (after_policy_skip loaded_state)))
           \<lparr>performedSuccessfulReload := True\<rparr>))
   \<and> apisByIDLen loaded_state = 1
   \<and> apiSpecs (after_empty_api_sync (after_policy_skip loaded_state)) = []
   \<and> apisByID (loadGlobalApps (after_empty_api_sync (after_policy_skip loaded_state))) = Map.empty
   \<and> muxInstalls (loadGlobalApps (after_empty_api_sync (after_policy_skip loaded_state))) = 1"
proof -
  have c: "config loaded_state = dashboard_config" by (simp add: loaded_state_def)
  have c2: "config (after_policy_skip loaded_state) = dashboard_config" using c by simp
  have p: "syncResourcesWithReload ''policies'' (config loaded_state)
             (syncPolicies empty_dashboard) (reinit_JSVM loaded_state)
           = Done (0, None) (after_policy_skip loaded_state)"
    by (rule dashboard_policies_synced [OF c])
  have a: "syncResourcesWithReload ''apis'' (config (after_policy_skip loaded_state))
             (syncAPISpecs empty_dashboard) (after_policy_skip loaded_state)
           = Done (0, None) (after_empty_api_sync (after_policy_skip loaded_state))"
    by (rule dashboard_apis_synced_empty [OF c2])
  have len: "apisByIDLen loaded_state = 1"
    by (simp add: apisByIDLen_def map_len_def loaded_state_def)
  hence ne: "apisByIDLen loaded_state \<noteq> 0" by simp
  from empty_sync_on_loaded_registry_reloads [OF p a ne] len show ?thesis
    by (simp add: loaded_state_def base_state_def)
qed

theorem empty_sync_on_empty_registry_abandons_reload_witness:
  "DoReload empty_dashboard unloaded_state =
     Done () ((logf Warning ''No API Definitions found, not reloading'' []
                 (after_empty_api_sync (after_policy_skip unloaded_state)))
                \<lparr>performedSuccessfulReload := True\<rparr>)
   \<and> apisByIDLen unloaded_state = 0
   \<and> muxInstalls (after_empty_api_sync (after_policy_skip unloaded_state)) = 0
   \<and> appRebuilds (after_empty_api_sync (after_policy_skip unloaded_state)) = 0"
proof -
  have c: "config unloaded_state = dashboard_config" by (simp add: unloaded_state_def)
  have c2: "config (after_policy_skip unloaded_state) = dashboard_config" using c by simp
  have p: "syncResourcesWithReload ''policies'' (config unloaded_state)
             (syncPolicies empty_dashboard) (reinit_JSVM unloaded_state)
           = Done (0, None) (after_policy_skip unloaded_state)"
    by (rule dashboard_policies_synced [OF c])
  have a: "syncResourcesWithReload ''apis'' (config (after_policy_skip unloaded_state))
             (syncAPISpecs empty_dashboard) (after_policy_skip unloaded_state)
           = Done (0, None) (after_empty_api_sync (after_policy_skip unloaded_state))"
    by (rule dashboard_apis_synced_empty [OF c2])
  have len: "apisByIDLen unloaded_state = 0"
    by (simp add: apisByIDLen_def map_len_def unloaded_state_def base_state_def)
  from empty_sync_on_empty_registry_abandons_reload [OF p a len] len show ?thesis
    by (simp add: unloaded_state_def base_state_def)
qed

text \<open>
  C5.  When the loader returns definitions, \<^verbatim>\<open>syncAPISpecs\<close> succeeds: the loaded set is
  the list of the fetched definitions that pass validation, in order, the count returned
  is its length, and one error is logged for every definition that fails validation.
\<close>

theorem sync_skips_invalid_definitions:
  assumes "load_api_specs w s = Done (fetched, None) s1"
  shows "\<exists>s'. syncAPISpecs w s =
           Done (int (length (filter (passes w (config s)) (force_providers (config s) fetched))),
                 None) s'
         \<and> apiSpecs s' = filter (passes w (config s)) (force_providers (config s) fetched)
         \<and> logs s' = logs s1 @ (Info, ''Detected %v APIs'', [AInt (int (length fetched))])
               # map (skipped_entry w (config s))
                   (filter (\<lambda>v. \<not> passes w (config s) v) (force_providers (config s) fetched))"
  unfolding syncAPISpecs_ok [OF assms] by simp

theorem sync_skips_invalid_definitions_witness:
  "\<exists>s'. syncAPISpecs two_specs_dir base_state = Done (1, None) s'
     \<and> apiSpecs s' = [spec_orders]
     \<and> logs s' = [(Info, ''Detected %v APIs'', [AInt 2]),
                   (Error, ''Skipping loading spec because it failed validation'',
                    [AErr (ErrExternal ''name is required''), AStr []])]"
proof -
  have l: "load_api_specs two_specs_dir base_state
             = Done ([spec_orders, spec_unnamed], None) (tick base_state)"
    by (simp add: load_api_specs_def two_specs_dir_def base_world_def base_state_def
        base_config_def Let_def)
  have f: "force_providers (config base_state) [spec_orders, spec_unnamed]
             = [spec_orders, spec_unnamed]"
    by (simp add: force_providers_def base_state_def base_config_def)
  have p: "passes two_specs_dir (config base_state) spec_orders"
          "\<not> passes two_specs_dir (config base_state) spec_unnamed"
    by (simp_all add: passes_def two_specs_dir_def base_world_def spec_orders_def spec_unnamed_def)
  have k: "skipped_entry two_specs_dir (config base_state) spec_unnamed
            = (Error, ''Skipping loading spec because it failed validation'',
                    [AErr (ErrExternal ''name is required''), AStr []])"
    by (simp add: skipped_entry_def two_specs_dir_def base_world_def spec_unnamed_def)
  from sync_skips_invalid_definitions [OF l] show ?thesis
    unfolding f by (simp add: p k) (simp add: tick_def base_state_def)
qed

lemma service_policies_fail:
  "\<forall>t. config t = service_config \<and> \<not> emergencyMode t \<longrightarrow>
     (\<exists>c e t'. syncPolicies base_world t = Done (c, Some e) t' \<and> config t' = service_config
        \<and> \<not> emergencyMode t')"
  by (simp add: syncPolicies_def LoadPoliciesFromDashboard_def syncPolicies_finish_def
      base_world_def service_config_def base_config_def logf_def tick_def Let_def)

lemma rpc_policies_fail:
  "\<forall>t. config t = rpc_config \<and> \<not> emergencyMode t \<longrightarrow>
     (\<exists>c e t'. syncPolicies backup_world t = Done (c, Some e) t' \<and> config t' = rpc_config
        \<and> \<not> emergencyMode t')"
  by (simp add: syncPolicies_def LoadPoliciesFromRPC_def syncPolicies_finish_def
      backup_world_def base_world_def rpc_config_def base_config_def logf_def tick_def Let_def)

lemma rpc_backup_loads:
  assumes "config t = rpc_config" "emergencyMode t"
  shows "\<exists>t'. call (syncPolicies backup_world) t = Done (1, None) t'
           \<and> policiesByID t' = [''gold'' \<mapsto> gold_policy] \<and> emergencyMode t'"
  using assms
  by (simp add: call_def syncPolicies_def LoadPoliciesFromRPC_def LoadPoliciesFromRPCBackup_def
      syncPolicies_finish_def backup_world_def base_world_def rpc_config_def base_config_def
      logf_def tick_def Let_def map_len_def)

theorem sync_retries_then_emergency_witness:
  "\<exists>s'. syncResourcesWithReload ''policies'' rpc_config (syncPolicies backup_world) rpc_state
           = Done (1, None) s'
     \<and> policiesByID s' = [''gold'' \<mapsto> gold_policy]
     \<and> emergencyMode s'
     \<and> effects s' = [Sleep 5000000000, Sleep 5000000000]
     \<and> syncCalls s' = 4"
proof -
  have known: "''policies'' = ''apis'' \<or> ''policies'' = ''policies''" by simp
  have att: "0 \<le> RetryAttempts rpc_config \<and> RetryAttempts rpc_config < 9223372036854775807"
    by (simp add: rpc_config_def)
  have cfg: "config rpc_state = rpc_config" by (simp add: rpc_state_def)
  have ne: "\<not> emergencyMode rpc_state" by (simp add: rpc_state_def base_state_def)
  have fails: "\<forall>t. config t = config rpc_state \<and> \<not> emergencyMode t \<longrightarrow>
     (\<exists>c e t'. syncPolicies backup_world t = Done (c, Some e) t' \<and> config t' = config rpc_state
        \<and> \<not> emergencyMode t')"
    unfolding cfg by (rule rpc_policies_fail)
  note all = sync_retries_then_emergency [OF known att syncPolicies_quiet,
      of backup_world rpc_state]
  note after = all [THEN conjunct2, THEN conjunct1, THEN mp, OF conjI [OF ne fails]]
  from after obtain e s2 where
    e2: "effects s2 = effects rpc_state @ replicate (nat (RetryAttempts rpc_config))
                                            (Sleep (int64 (Interval rpc_config * Second)))"
    and c2: "syncCalls s2 = syncCalls rpc_state + nat (RetryAttempts rpc_config) + 1"
    and g2: "config s2 = config rpc_state"
    and run: "syncResourcesWithReload ''policies'' rpc_config (syncPolicies backup_world) rpc_state =
                  (if UseRPC rpc_config then
                     (case call (syncPolicies backup_world)
                             (EnableEmergencyMode True
                                     (logf Warning
                                        ''All %s sync attempts failed, triggering emergency mode''
                                        [AStr ''policies''] s2)) of
                        Exit s5 \<Rightarrow> Exit s5
                      | Blocked s5 \<Rightarrow> Blocked s5
                      | Done (c, None) s5 \<Rightarrow>
                          Done (c, None)
                            (logf Info
                               ''Successfully loaded %s from backup after enabling emergency mode''
                               [AStr ''policies''] s5)
                      | Done (c, Some e') s5 \<Rightarrow>
                          Done (0, Some (ErrSyncFailed ''policies'' (Some e'))) s5)
                   else Done (0, Some (ErrSyncFailed ''policies'' (Some e))) s2)"
    and fin: "\<forall>r s'. syncResourcesWithReload ''policies'' rpc_config (syncPolicies backup_world)
                        rpc_state = Done r s' \<longrightarrow>
                    effects s' = effects s2
                    \<and> syncCalls s' = syncCalls s2 + (if UseRPC rpc_config then 1 else 0)"
    by blast
  define s4 where "s4 = EnableEmergencyMode True
                          (logf Warning ''All %s sync attempts failed, triggering emergency mode''
                             [AStr ''policies''] s2)"
  have "config s4 = rpc_config" "emergencyMode s4"
    using g2 cfg by (simp_all add: s4_def EnableEmergencyMode_def logf_def)
  from rpc_backup_loads [OF this] obtain s5 where
    s5: "call (syncPolicies backup_world) s4 = Done (1, None) s5"
        "policiesByID s5 = [''gold'' \<mapsto> gold_policy]" "emergencyMode s5"
    by blast
  define s' where "s' = logf Info
     ''Successfully loaded %s from backup after enabling emergency mode'' [AStr ''policies''] s5"
  have res: "syncResourcesWithReload ''policies'' rpc_config (syncPolicies backup_world) rpc_state
           = Done (1, None) s'"
    unfolding run s4_def [symmetric] s5(1) by (simp add: rpc_config_def s'_def)
  have p: "policiesByID s' = [''gold'' \<mapsto> gold_policy]" "emergencyMode s'"
    using s5(2,3) by (simp_all add: s'_def logf_def)
  have e: "effects s' = [Sleep 5000000000, Sleep 5000000000]"
    using fin [rule_format, OF res] e2
    by (simp add: rpc_state_def base_state_def rpc_config_def numeral_2_eq_2 Second_def int64_def)
  have c: "syncCalls s' = 4"
    using fin [rule_format, OF res] c2
    by (simp add: rpc_state_def base_state_def rpc_config_def)
  from res p e c show ?thesis by blast
qed

theorem failed_policy_sync_keeps_registries_witness:
  "\<exists>s'. DoReload base_world service_state = Done () s'
     \<and> policiesByID s' = [''gold'' \<mapsto> gold_policy]
     \<and> apiSpecs s' = [] \<and> muxInstalls s' = 0 \<and> appRebuilds s' = 0"
proof -
  have cfg: "config service_state = service_config" by (simp add: service_state_def)
  have r: "reinit_JSVM service_state = service_state"
    by (simp add: reinit_JSVM_def service_state_def service_config_def base_config_def)
  have one: "(1::int) \<le> int64 (RetryAttempts service_config + 1)"
    by (simp add: service_config_def int64_def)
  have ne: "\<not> emergencyMode service_state" by (simp add: service_state_def base_state_def)
  from sync_loop_all_fail [where f="syncPolicies base_world" and cfg=service_config
      and s=service_state and i=1 and conf=service_config and resource="''policies''" and err=None,
      OF syncPolicies_quiet service_policies_fail _ one cfg ne]
  obtain e s2 where "sync_loop ''policies'' service_config (syncPolicies base_world) 1 None service_state
      = emergency_attempt ''policies'' service_config (syncPolicies base_world) e s2" by auto
  hence "sync_loop ''policies'' service_config (syncPolicies base_world) 1 None service_state
      = Done (0, Some (ErrSyncFailed ''policies'' (Some e))) s2"
    by (simp add: emergency_attempt_def service_config_def base_config_def)
  hence "syncResourcesWithReload ''policies'' (config service_state) (syncPolicies base_world)
           (reinit_JSVM service_state) = Done (0, Some (ErrSyncFailed ''policies'' (Some e))) s2"
    by (simp add: syncResourcesWithReload_def cfg r)
  from failed_policy_sync_keeps_registries [OF this]
  have "DoReload base_world service_state
          = Done () (logf Error ''Error during syncing policies'' [] s2)
       \<and> policiesByID (logf Error ''Error during syncing policies'' [] s2) = [''gold'' \<mapsto> gold_policy]
       \<and> apiSpecs (logf Error ''Error during syncing policies'' [] s2) = []
       \<and> muxInstalls (logf Error ''Error during syncing policies'' [] s2) = 0
       \<and> appRebuilds (logf Error ''Error during syncing policies'' [] s2) = 0"
    by (simp add: service_state_def base_state_def)
  thus ?thesis by blast
qed

text \<open>
  The claim as stated (a policy sync attempt that returns an error keeps the policy
  registry and ends the reload) fails for a gateway with one retry whose dashboard refuses
  the first policy request and answers the second: the first attempt returns an error,
  the retry replaces the registry, and the reload goes on to rebuild the snapshot.
\<close>

theorem policy_retry_replaces_registry_counterexample:
  "policiesByID service_state = [''gold'' \<mapsto> gold_policy]
   \<and> RetryAttempts (config service_state) = 1
   \<and> call (syncPolicies retry_world) (reinit_JSVM service_state) =
       Done (0, Some (ErrExternal ''connection refused''))
         (service_state
            \<lparr>logs := [(Info, ''Loading policies'', []),
                      (Info, ''Using Policies from Dashboard Service'', []),
                      (Info, ''Mutex lock acquired... calling'', [AStr ''policy'']),
                      (Info, ''Calling dashboard service for policy list'', [AStr ''policy'']),
                      (Error, ''Policy request failed: '',
                       [AErr (ErrExternal ''connection refused'')]),
                      (Info, ''Policies found (%d total):'', [AInt 0])],
             io := 1, syncCalls := 1\<rparr>)
   \<and> DoReload retry_world service_state =
       Done ()
         (service_state
            \<lparr>apiSpecs := [spec_orders], apisByID := [''a1'' \<mapsto> spec_orders],
             policiesByID := [''5f01'' \<mapsto> silver_policy],
             performedSuccessfulReload := True, ServiceNonce := ''nonce-1'',
             logs := [(Info, ''Loading policies'', []),
                      (Info, ''Using Policies from Dashboard Service'', []),
                      (Info, ''Mutex lock acquired... calling'', [AStr ''policy'']),
                      (Info, ''Calling dashboard service for policy list'', [AStr ''policy'']),
                      (Error, ''Policy request failed: '',
                       [AErr (ErrExternal ''connection refused'')]),
                      (Info, ''Policies found (%d total):'', [AInt 0]),
                      (Error, ''Error during syncing %s: %s, attempt count %d'',
                       [AStr ''policies'', AErr (ErrExternal ''connection refused''), AInt 1]),
                      (Info, ''Loading policies'', []),
                      (Info, ''Using Policies from Dashboard Service'', []),
                      (Info, ''Mutex lock acquired... calling'', [AStr ''policy'']),
                      (Info, ''Calling dashboard service for policy list'', [AStr ''policy'']),
                      (Debug, ''Loading Policies Finished: Nonce Set: '', [AStr ''nonce-1'']),
                      (Info, ''Processing policy list'', [AStr ''policy'']),
                      (Info, ''Policies found (%d total):'', [AInt 1]),
                      (Info, ''Detected %v APIs'', [AInt 1]),
                      (Info, ''API reload complete'', [])],
             effects := [Sleep 5000000000],
             io := 3, syncCalls := 3, tlsFlushes := 1, appRebuilds := 1, muxInstalls := 1\<rparr>)"
proof -
  have a: "policiesByID service_state = [''gold'' \<mapsto> gold_policy]"
    by (simp add: service_state_def)
  have b: "RetryAttempts (config service_state) = 1"
    by (simp add: service_state_def service_config_def)
  have c: "call (syncPolicies retry_world) (reinit_JSVM service_state) =
       Done (0, Some (ErrExternal ''connection refused''))
         (service_state
            \<lparr>logs := [(Info, ''Loading policies'', []),
                      (Info, ''Using Policies from Dashboard Service'', []),
                      (Info, ''Mutex lock acquired... calling'', [AStr ''policy'']),
                      (Info, ''Calling dashboard service for policy list'', [AStr ''policy'']),
                      (Error, ''Policy request failed: '',
                       [AErr (ErrExternal ''connection refused'')]),
                      (Info, ''Policies found (%d total):'', [AInt 0])],
             io := 1, syncCalls := 1\<rparr>)"
    by (simp add: reinit_JSVM_def call_def syncPolicies_def LoadPoliciesFromDashboard_def
        syncPolicies_finish_def retry_world_def base_world_def service_state_def base_state_def
        service_config_def base_config_def logf_def tick_def Let_def map_len_def)
  have d: "DoReload retry_world service_state =
       Done ()
         (service_state
            \<lparr>apiSpecs := [spec_orders], apisByID := [''a1'' \<mapsto> spec_orders],
             policiesByID := [''5f01'' \<mapsto> silver_policy],
             performedSuccessfulReload := True, ServiceNonce := ''nonce-1'',
             logs := [(Info, ''Loading policies'', []),
                      (Info, ''Using Policies from Dashboard Service'', []),
                      (Info, ''Mutex lock acquired... calling'', [AStr ''policy'']),
                      (Info, ''Calling dashboard service for policy list'', [AStr ''policy'']),
                      (Error, ''Policy request failed: '',
                       [AErr (ErrExternal ''connection refused'')]),
                      (Info, ''Policies found (%d total):'', [AInt 0]),
                      (Error, ''Error during syncing %s: %s, attempt count %d'',
                       [AStr ''policies'', AErr (ErrExternal ''connection refused''), AInt 1]),
                      (Info, ''Loading policies'', []),
                      (Info, ''Using Policies from Dashboard Service'', []),
                      (Info, ''Mutex lock acquired... calling'', [AStr ''policy'']),
                      (Info, ''Calling dashboard service for policy list'', [AStr ''policy'']),
                      (Debug, ''Loading Policies Finished: Nonce Set: '', [AStr ''nonce-1'']),
                      (Info, ''Processing policy list'', [AStr ''policy'']),
                      (Info, ''Policies found (%d total):'', [AInt 1]),
                      (Info, ''Detected %v APIs'', [AInt 1]),
                      (Info, ''API reload complete'', [])],
             effects := [Sleep 5000000000],
             io := 3, syncCalls := 3, tlsFlushes := 1, appRebuilds := 1, muxInstalls := 1\<rparr>)"
    by (simp add: DoReload_def reinit_JSVM_def syncResourcesWithReload_def sync_loop.simps
        int64_def Second_def call_def syncPolicies_def LoadPoliciesFromDashboard_def
        syncPolicies_finish_def syncAPISpecs_def load_api_specs_def force_providers_def
        loadGlobalApps_def apisByIDLen_def effect_add_def mk_db_policy_def ToRegularPolicy_def
        StatusOK_def spec_orders_def silver_policy_def retry_world_def base_world_def
        service_state_def base_state_def service_config_def base_config_def logf_def tick_def
        Let_def map_len_def)
  from a b c d show ?thesis by (intro conjI)
qed
section \<open>Properties of the registration and the heartbeat\<close>
























end
